theory Spec2Isabelle
  imports Complex_Main "HOL-Library.Log_Nat"
begin

section \<open>JavaScript numbers and strings\<close>

text \<open>
  The numbers of \<^verbatim>\<open>script.js\<close> are IEEE-754 doubles. A finite double is a rational
  number, so a Number is either \<open>NaN\<close> or a rational; every arithmetic result is rounded to
  the nearest double (53 significant bits, ties to even) by \<open>fl\<close>. The exponent range of
  doubles (overflow to Infinity at \<open>2^1024\<close>, subnormals below \<open>2^-1022\<close>) is not modelled:
  byte sizes, pixel dimensions and their quotients stay far inside it. Strings are lists of
  code units in the range U+0000 to U+00FF.
\<close>

datatype number = NaN | Num rat

definition pow2 :: "int \<Rightarrow> rat" where
  "pow2 k = (if 0 \<le> k then 2 ^ nat k else 1 / 2 ^ nat (- k))"

definition round_half_even :: "rat \<Rightarrow> int" where
  "round_half_even m =
     (let f = \<lfloor>m\<rfloor>; d = m - of_int f
      in if d < 1 / 2 then f else if 1 / 2 < d then f + 1 else if even f then f else f + 1)"

text \<open>\<open>binade a\<close> is the exponent \<open>e\<close> with \<open>2^e \<le> a < 2^(e+1)\<close>, for \<open>a > 0\<close>.\<close>

definition binade :: "rat \<Rightarrow> int" where
  "binade a =
     (case quotient_of a of (p, q) \<Rightarrow>
        let d = bitlen p - bitlen q in if pow2 d \<le> a then d else d - 1)"

definition fl :: "rat \<Rightarrow> rat" where
  "fl x =
     (if x = 0 then 0
      else let a = \<bar>x\<bar>; u = pow2 (binade a - 52); r = of_int (round_half_even (a / u)) * u
           in if x < 0 then - r else r)"

text \<open>\<^verbatim>\<open>Math.round\<close>: the nearest integer, a tie going towards plus infinity.\<close>

definition math_round :: "rat \<Rightarrow> int" where
  "math_round x = \<lfloor>x + 1 / 2\<rfloor>"

function decimal :: "int \<Rightarrow> string" where
  "decimal n =
     (if n < 10 then [''0123456789'' ! nat n]
      else decimal (n div 10) @ [''0123456789'' ! nat (n mod 10)])"
  by pat_completeness auto
termination
  by (relation "measure nat") auto

declare decimal.simps [simp del]

text \<open>
  Number to string, as a template literal or an assignment to an input's \<^verbatim>\<open>value\<close> does
  it. The program only converts integral values; below \<open>10^21\<close> JavaScript prints all their
  digits, which is what this definition does.
\<close>

definition toString :: "number \<Rightarrow> string" where
  "toString v =
     (case v of
        NaN \<Rightarrow> ''NaN''
      | Num x \<Rightarrow> (if x < 0 then ''-'' else '''') @ decimal \<lfloor>\<bar>x\<bar>\<rfloor>)"

text \<open>
  \<^verbatim>\<open>x.toFixed(1)\<close>: the integer \<open>n\<close> with \<open>n / 10\<close> nearest to the exact value of \<open>x\<close>,
  the larger one at a tie, printed with one fractional digit (values below \<open>10^21\<close>).
\<close>

definition toFixed1 :: "rat \<Rightarrow> string" where
  "toFixed1 x =
     (let n = \<lfloor>\<bar>x\<bar> * 10 + 1 / 2\<rfloor>
      in (if x < 0 then ''-'' else '''') @ decimal (n div 10) @ ''.'' @ decimal (n mod 10))"

subsection \<open>parseInt\<close>

definition isWhiteSpace :: "char \<Rightarrow> bool" where
  "isWhiteSpace c \<longleftrightarrow>
     c \<in> set [CHR 0x09, CHR 0x0A, CHR 0x0B, CHR 0x0C, CHR 0x0D, CHR 0x20, CHR 0xA0]"

definition digitValue :: "char \<Rightarrow> int option" where
  "digitValue c =
     (let n = (of_char c :: int)
      in if 48 \<le> n \<and> n \<le> 57 then Some (n - 48)
         else if 97 \<le> n \<and> n \<le> 122 then Some (n - 87)
         else if 65 \<le> n \<and> n \<le> 90 then Some (n - 55)
         else None)"

definition isDigit :: "int \<Rightarrow> char \<Rightarrow> bool" where
  "isDigit R c = (case digitValue c of None \<Rightarrow> False | Some d \<Rightarrow> d < R)"

definition mathInt :: "int \<Rightarrow> string \<Rightarrow> int" where
  "mathInt R Z = foldl (\<lambda>a c. a * R + (case digitValue c of None \<Rightarrow> 0 | Some d \<Rightarrow> d)) 0 Z"

text \<open>
  \<^verbatim>\<open>parseInt(string)\<close> without a radix: leading white space is skipped, a sign is read, a
  prefix \<^verbatim>\<open>0x\<close> selects radix 16, and the longest run of digits is the value; whatever
  follows is ignored. No digit at all gives \<open>NaN\<close>.
\<close>

definition parseInt :: "string \<Rightarrow> number" where
  "parseInt inputString =
     (let S = dropWhile isWhiteSpace inputString;
          sign = (if S \<noteq> [] \<and> hd S = CHR ''-'' then - 1 else 1 :: int);
          S1 = (if S \<noteq> [] \<and> (hd S = CHR ''+'' \<or> hd S = CHR ''-'') then tl S else S);
          hex = (take 2 S1 = ''0x'' \<or> take 2 S1 = ''0X'');
          R = (if hex then 16 else 10);
          S2 = (if hex then drop 2 S1 else S1);
          Z = takeWhile (isDigit R) S2
      in if Z = [] then NaN else Num (fl (of_int (sign * mathInt R Z))))"

text \<open>\<^verbatim>\<open>!v\<close>, \<^verbatim>\<open>isNaN(v)\<close> and the comparisons, all false on \<open>NaN\<close>.\<close>

fun falsy :: "number \<Rightarrow> bool" where
  "falsy NaN = True"
| "falsy (Num x) = (x = 0)"

fun isNaN :: "number \<Rightarrow> bool" where
  "isNaN NaN = True"
| "isNaN (Num x) = False"

fun lt :: "number \<Rightarrow> rat \<Rightarrow> bool" where
  "lt NaN c = False"
| "lt (Num x) c = (x < c)"

fun gt :: "number \<Rightarrow> rat \<Rightarrow> bool" where
  "gt NaN c = False"
| "gt (Num x) c = (c < x)"

section \<open>Application state\<close>

text \<open>
  A \<^verbatim>\<open>File\<close>, a \<^verbatim>\<open>Blob\<close>, one entry of \<^verbatim>\<open>state.files\<close> (as \<^verbatim>\<open>loadImage\<close> builds it) and
  the global \<^verbatim>\<open>state\<close>. The state also holds the parts of the page the operations read and
  write: the two dimension inputs, the text and colour classes of the savings figure, the
  toasts shown, the object URLs that \<^verbatim>\<open>URL.createObjectURL\<close> has handed out and that
  are not revoked, and the downloads triggered. Layout, preview, progress bar and
  animations are left out.
\<close>

record js_file =
  file_name :: string
  file_type :: string
  file_size :: int

record blob =
  blob_size :: int
  blob_type :: string

record item =
  file_obj :: js_file
  originalUrl :: string
  naturalWidth :: int
  naturalHeight :: int
  originalSize :: int
  resizedBlob :: "blob option"
  resizedUrl :: "nat option"

record state =
  files :: "item list"
  activeIndex :: nat
  aspectLocked :: bool
  aspectRatio :: rat
  originalWidth :: int
  originalHeight :: int
  outputFormat :: string
  outputExt :: string
  quality :: rat
  widthInput :: string
  heightInput :: string
  savedPercent :: string
  savedPercentClasses :: "string set"
  toasts :: "(string \<times> string) list"
  objectUrls :: "nat set"
  nextUrl :: nat
  downloads :: "(nat option \<times> string) list"

definition showToast :: "string \<Rightarrow> string \<Rightarrow> state \<Rightarrow> state" where
  "showToast message type st = st\<lparr>toasts := toasts st @ [(message, type)]\<rparr>"

definition revokeObjectURL :: "nat \<Rightarrow> state \<Rightarrow> state" where
  "revokeObjectURL u st = st\<lparr>objectUrls := objectUrls st - {u}\<rparr>"

definition createObjectURL :: "state \<Rightarrow> nat \<times> state" where
  "createObjectURL st =
     (nextUrl st,
      st\<lparr>objectUrls := insert (nextUrl st) (objectUrls st), nextUrl := Suc (nextUrl st)\<rparr>)"

section \<open>Statistics\<close>

text \<open>
  \<^verbatim>\<open>showResults(item)\<close>, the savings figure only. It reads \<^verbatim>\<open>item.resizedBlob.size\<close>; both
  callers call it with a blob present, and without one the state is returned as it is.
  \<^verbatim>\<open>originalSize\<close> is positive for a loaded image.
\<close>

definition percentOf :: "int \<Rightarrow> int \<Rightarrow> rat" where
  "percentOf bytes origSize = fl (fl (of_int bytes / of_int origSize) * 100)"

definition showResults :: "item \<Rightarrow> state \<Rightarrow> state" where
  "showResults item st =
     (case resizedBlob item of
        None \<Rightarrow> st
      | Some b \<Rightarrow>
          let origSize = originalSize item;
              resizedSize = blob_size b;
              savedBytes = origSize - resizedSize;
              savedPct = toFixed1 (percentOf savedBytes origSize)
          in if 0 < savedBytes
             then st\<lparr>savedPercent := savedPct @ ''% smaller'',
                     savedPercentClasses :=
                       savedPercentClasses st - {''text-red-500''}
                         \<union> {''text-green-600'', ''dark:text-green-400''}\<rparr>
             else let increase = toFixed1 (percentOf (resizedSize - origSize) origSize)
                  in st\<lparr>savedPercent := increase @ ''% larger'',
                         savedPercentClasses :=
                           savedPercentClasses st - {''text-green-600'', ''dark:text-green-400''}
                             \<union> {''text-red-500''}\<rparr>)"

section \<open>Loading files\<close>

definition validTypes :: "string list" where
  "validTypes =
     [''image/jpeg'', ''image/png'', ''image/webp'', ''image/gif'', ''image/bmp'', ''image/tiff'']"

definition maxSize :: int where
  "maxSize = 50 * 1024 * 1024"

text \<open>
  \<^verbatim>\<open>selectFile(index)\<close>. The aspect ratio is the double nearest to width / height; the
  natural height of a decoded image is positive.
\<close>

definition selectFile :: "int \<Rightarrow> state \<Rightarrow> state" where
  "selectFile index st =
     (if index < 0 \<or> int (length (files st)) \<le> index then st
      else let item = files st ! nat index;
               st1 = st\<lparr>activeIndex := nat index,
                        originalWidth := naturalWidth item,
                        originalHeight := naturalHeight item,
                        aspectRatio := fl (of_int (naturalWidth item) / of_int (naturalHeight item)),
                        widthInput := toString (Num (of_int (naturalWidth item))),
                        heightInput := toString (Num (of_int (naturalHeight item)))\<rparr>
           in case resizedBlob item of None \<Rightarrow> st1 | Some b \<Rightarrow> showResults item st1)"

text \<open>
  \<^verbatim>\<open>loadImage(file)\<close> reads and decodes the file in the browser; \<open>decode\<close> stands for
  that: the data URL and the natural width and height, or \<open>None\<close> when the promise rejects.
\<close>

type_synonym decoder = "js_file \<Rightarrow> (string \<times> int \<times> int) option"

definition loadImage :: "decoder \<Rightarrow> js_file \<Rightarrow> item option" where
  "loadImage decode f =
     (case decode f of
        None \<Rightarrow> None
      | Some (fixedUrl, width, height) \<Rightarrow>
          Some \<lparr>file_obj = f, originalUrl = fixedUrl, naturalWidth = width, naturalHeight = height,
                originalSize = file_size f, resizedBlob = None, resizedUrl = None\<rparr>)"

text \<open>The first loop of \<^verbatim>\<open>handleFiles\<close>: the files that pass both checks, in order.\<close>

fun screenFiles :: "js_file list \<Rightarrow> state \<Rightarrow> js_file list \<times> state" where
  "screenFiles [] st = ([], st)"
| "screenFiles (f # fs) st =
     (if file_type f \<notin> set validTypes
      then screenFiles fs (showToast (''Unsupported format: '' @ file_name f) ''error'' st)
      else if maxSize < file_size f
      then screenFiles fs
             (showToast (''File too large: '' @ file_name f @ '' (max 50MB)'') ''error'' st)
      else case screenFiles fs st of (newFiles, st') \<Rightarrow> (f # newFiles, st'))"

text \<open>The second loop: each accepted file is loaded and pushed, or reported.\<close>

fun loadFiles :: "decoder \<Rightarrow> js_file list \<Rightarrow> state \<Rightarrow> state" where
  "loadFiles decode [] st = st"
| "loadFiles decode (f # fs) st =
     (case loadImage decode f of
        Some result \<Rightarrow> loadFiles decode fs (st\<lparr>files := files st @ [result]\<rparr>)
      | None \<Rightarrow> loadFiles decode fs (showToast (''Failed to load: '' @ file_name f) ''error'' st))"

definition handleFiles :: "decoder \<Rightarrow> js_file list \<Rightarrow> state \<Rightarrow> state" where
  "handleFiles decode fileList st =
     (case screenFiles fileList st of
        (newFiles, st1) \<Rightarrow>
          if newFiles = [] then st1
          else let st2 = loadFiles decode newFiles st1
               in if files st2 \<noteq> []
                  then showToast
                         (decimal (int (length newFiles)) @ '' image''
                            @ (if 1 < length newFiles then ''s'' else '''') @ '' loaded'')
                         ''success''
                         (selectFile (int (length (files st2)) - int (length newFiles)) st2)
                  else st2)"

section \<open>Controls\<close>

text \<open>
  The \<^verbatim>\<open>input\<close> listeners of the width and the height field. The browser has stored the
  typed text \<open>v\<close> in the field when the listener runs; an assignment to the other field's
  \<^verbatim>\<open>value\<close> from script dispatches no \<^verbatim>\<open>input\<close> event, so the other listener is not run.
\<close>

definition onWidthInput :: "string \<Rightarrow> state \<Rightarrow> state" where
  "onWidthInput v st =
     (let st1 = st\<lparr>widthInput := v\<rparr>
      in if aspectLocked st1 \<and> v \<noteq> []
         then (case parseInt v of
                 NaN \<Rightarrow> st1
               | Num w \<Rightarrow>
                   st1\<lparr>heightInput :=
                         toString (Num (of_int (math_round (fl (w / aspectRatio st1)))))\<rparr>)
         else st1)"

definition onHeightInput :: "string \<Rightarrow> state \<Rightarrow> state" where
  "onHeightInput v st =
     (let st1 = st\<lparr>heightInput := v\<rparr>
      in if aspectLocked st1 \<and> v \<noteq> []
         then (case parseInt v of
                 NaN \<Rightarrow> st1
               | Num h \<Rightarrow>
                   st1\<lparr>widthInput :=
                         toString (Num (of_int (math_round (fl (h * aspectRatio st1)))))\<rparr>)
         else st1)"

definition toggleLock :: "state \<Rightarrow> state" where
  "toggleLock st =
     (let st1 = st\<lparr>aspectLocked := \<not> aspectLocked st\<rparr>
      in showToast (if aspectLocked st1 then ''Aspect ratio locked'' else ''Aspect ratio unlocked'')
           ''info'' st1)"

text \<open>A format button carries the MIME type and the extension in its data attributes.\<close>

definition selectFormat :: "string \<Rightarrow> string \<Rightarrow> state \<Rightarrow> state" where
  "selectFormat format ext st = st\<lparr>outputFormat := format, outputExt := ext\<rparr>"

section \<open>Resizing\<close>

text \<open>
  What the browser and Pica do is a parameter: whether Pica is present, whether the
  image of a data URL loads, whether \<^verbatim>\<open>pica.resize\<close> rejects (with a message), and what
  the two encoders give for the destination canvas, which is determined by the item and
  the target size. The promise of \<^verbatim>\<open>pica.toBlob\<close> rejects with a message or resolves with
  what the canvas encoder calls back, a blob or \<^verbatim>\<open>null\<close>; \<^verbatim>\<open>canvas.toBlob\<close> calls back with
  a blob or \<^verbatim>\<open>null\<close>. \<^verbatim>\<open>URL.createObjectURL(null)\<close> throws a \<^verbatim>\<open>TypeError\<close>, whose message is
  the browser's.
\<close>

record browser =
  picaInstance :: bool
  imageLoads :: "string \<Rightarrow> bool"
  pica_resize :: "item \<Rightarrow> number \<Rightarrow> number \<Rightarrow> string option"
  pica_toBlob :: "item \<Rightarrow> number \<Rightarrow> number \<Rightarrow> string \<Rightarrow> rat \<Rightarrow> string + blob option"
  canvas_toBlob :: "item \<Rightarrow> number \<Rightarrow> number \<Rightarrow> string \<Rightarrow> rat \<Rightarrow> blob option"
  nullBlobMessage :: string

datatype stage = Decode | Resample | Encode | Publish

type_synonym failure = "stage \<times> string"

definition canvasToBlob ::
  "browser \<Rightarrow> item \<Rightarrow> number \<Rightarrow> number \<Rightarrow> string \<Rightarrow> rat \<Rightarrow> string + blob option" where
  "canvasToBlob env item targetW targetH format q =
     (if picaInstance env \<and> format \<noteq> ''image/png''
      then pica_toBlob env item targetW targetH format q
      else case canvas_toBlob env item targetW targetH format q of
             None \<Rightarrow> Inl ''Canvas toBlob failed''
           | Some b \<Rightarrow> Inr (Some b))"

text \<open>
  The three awaited stages of \<^verbatim>\<open>resizeImage\<close>, in order; the first that rejects ends
  the function with that error (\<^verbatim>\<open>img.onerror\<close> rejects with an event, whose
  \<^verbatim>\<open>message\<close> is undefined). The result of the last stage is the value of \<^verbatim>\<open>blob\<close>:
  only the fallback encoder turns \<^verbatim>\<open>null\<close> into a rejection.
\<close>

definition pipeline ::
  "browser \<Rightarrow> state \<Rightarrow> item \<Rightarrow> number \<Rightarrow> number \<Rightarrow> failure + blob option" where
  "pipeline env st item targetW targetH =
     (if \<not> imageLoads env (originalUrl item) then Inl (Decode, ''undefined'')
      else case (if picaInstance env then pica_resize env item targetW targetH else None) of
             Some m \<Rightarrow> Inl (Resample, m)
           | None \<Rightarrow>
               (case canvasToBlob env item targetW targetH (outputFormat st) (quality st) of
                  Inl m \<Rightarrow> Inl (Encode, m)
                | Inr blob \<Rightarrow> Inr blob))"

text \<open>
  The statements after the last \<^verbatim>\<open>await\<close>: the old URL is released, the blob is assigned
  to \<^verbatim>\<open>item.resizedBlob\<close>, and the URL that \<^verbatim>\<open>URL.createObjectURL\<close> makes for it is assigned
  to \<^verbatim>\<open>item.resizedUrl\<close>. With a blob the two assignments are \<open>install\<close>. With \<^verbatim>\<open>null\<close> the
  first assignment is made (\<open>assignNull\<close>) and \<^verbatim>\<open>URL.createObjectURL\<close> throws, so the item
  keeps the URL it had.
\<close>

definition revokeOld :: "nat \<Rightarrow> state \<Rightarrow> state" where
  "revokeOld i st =
     (case resizedUrl (files st ! i) of None \<Rightarrow> st | Some u \<Rightarrow> revokeObjectURL u st)"

definition install :: "nat \<Rightarrow> blob \<Rightarrow> state \<Rightarrow> state" where
  "install i b st =
     (case createObjectURL st of
        (url, st1) \<Rightarrow>
          st1\<lparr>files := (files st1)[i := (files st1 ! i)\<lparr>resizedBlob := Some b, resizedUrl := Some url\<rparr>]\<rparr>)"

definition assignNull :: "nat \<Rightarrow> state \<Rightarrow> state" where
  "assignNull i st = st\<lparr>files := (files st)[i := (files st ! i)\<lparr>resizedBlob := None\<rparr>]\<rparr>"

text \<open>
  \<^verbatim>\<open>resizeImage(item, targetW, targetH)\<close>, the item given by its index in \<^verbatim>\<open>state.files\<close>
  (an index below the length). The result is the error thrown, if any, and the state then.
\<close>

definition resizeImage ::
  "browser \<Rightarrow> nat \<Rightarrow> number \<Rightarrow> number \<Rightarrow> state \<Rightarrow> failure option \<times> state" where
  "resizeImage env i targetW targetH st =
     (case pipeline env st (files st ! i) targetW targetH of
        Inl err \<Rightarrow> (Some err, st)
      | Inr None \<Rightarrow> (Some (Publish, nullBlobMessage env), assignNull i (revokeOld i st))
      | Inr (Some b) \<Rightarrow> (None, install i b (revokeOld i st)))"

definition invalidDimensions :: "number \<Rightarrow> number \<Rightarrow> bool" where
  "invalidDimensions targetW targetH \<longleftrightarrow>
     falsy targetW \<or> falsy targetH \<or> lt targetW 1 \<or> lt targetH 1"

definition resizeCurrent :: "browser \<Rightarrow> state \<Rightarrow> state" where
  "resizeCurrent env st =
     (if length (files st) \<le> activeIndex st then st
      else let targetW = parseInt (widthInput st); targetH = parseInt (heightInput st)
           in if invalidDimensions targetW targetH
              then showToast ''Please enter valid dimensions'' ''error'' st
              else if gt targetW 10000 \<or> gt targetH 10000
              then showToast ''Maximum dimension is 10,000px'' ''error'' st
              else case resizeImage env (activeIndex st) targetW targetH st of
                     (None, st1) \<Rightarrow>
                       showToast ''Image resized successfully!'' ''success''
                         (showResults (files st1 ! activeIndex st) st1)
                   | (Some err, st1) \<Rightarrow>
                       showToast (''Error resizing image: '' @ snd err) ''error'' st1)"

text \<open>The \<^verbatim>\<open>for\<close> loop of \<^verbatim>\<open>resizeAll\<close>, inside its \<^verbatim>\<open>try\<close>: an error leaves the loop.\<close>

function resizeLoop ::
  "browser \<Rightarrow> number \<Rightarrow> number \<Rightarrow> nat \<Rightarrow> int \<Rightarrow> state \<Rightarrow> failure option \<times> int \<times> state" where
  "resizeLoop env targetW targetH i completed st =
     (if i < length (files st)
      then (case resizeImage env i targetW targetH st of
              (Some err, st1) \<Rightarrow> (Some err, completed, st1)
            | (None, st1) \<Rightarrow> resizeLoop env targetW targetH (i + 1) (completed + 1) st1)
      else (None, completed, st))"
  by pat_completeness auto
termination
  apply (relation "measure (\<lambda>(env, targetW, targetH, i, completed, st). length (files st) - i)")
   apply simp
  apply (auto simp: resizeImage_def install_def createObjectURL_def revokeOld_def
      revokeObjectURL_def split: sum.splits option.splits)
  done

declare resizeLoop.simps [simp del]

definition resizeAll :: "browser \<Rightarrow> state \<Rightarrow> state" where
  "resizeAll env st =
     (let targetW = parseInt (widthInput st); targetH = parseInt (heightInput st)
      in if invalidDimensions targetW targetH
         then showToast ''Please enter valid dimensions'' ''error'' st
         else case resizeLoop env targetW targetH 0 0 st of
                (None, completed, st1) \<Rightarrow>
                  showToast (''All '' @ toString (Num (of_int completed)) @ '' images resized!'')
                    ''success'' (selectFile (int (activeIndex st1)) st1)
              | (Some err, completed, st1) \<Rightarrow>
                  showToast (''Error during batch resize: '' @ snd err) ''error'' st1)"

section \<open>Downloads\<close>

text \<open>
  \<^verbatim>\<open>name.replace(/\.[^.]+$/, '')\<close>: the first position where a dot is followed by one or
  more characters other than a dot, up to the end of the name, is where the name is cut.
\<close>

definition matchesExt :: "string \<Rightarrow> bool" where
  "matchesExt s = (case s of [] \<Rightarrow> False | c # r \<Rightarrow> c = CHR ''.'' \<and> r \<noteq> [] \<and> CHR ''.'' \<notin> set r)"

fun replaceExt :: "string \<Rightarrow> string" where
  "replaceExt [] = []"
| "replaceExt (c # r) = (if matchesExt (c # r) then [] else c # replaceExt r)"

definition triggerDownload :: "nat option \<Rightarrow> string \<Rightarrow> state \<Rightarrow> state" where
  "triggerDownload url filename st = st\<lparr>downloads := downloads st @ [(url, filename)]\<rparr>"

definition downloadName :: "item \<Rightarrow> state \<Rightarrow> string" where
  "downloadName item st =
     (let baseName = replaceExt (file_name (file_obj item));
          w = parseInt (widthInput st);
          h = parseInt (heightInput st)
      in baseName @ ''_'' @ toString w @ ''x'' @ toString h @ ''.'' @ outputExt st)"

definition downloadCurrent :: "state \<Rightarrow> state" where
  "downloadCurrent st =
     (if activeIndex st < length (files st) \<and> resizedBlob (files st ! activeIndex st) \<noteq> None
      then let item = files st ! activeIndex st
           in showToast ''Download started!'' ''success''
                (triggerDownload (resizedUrl item) (downloadName item st) st)
      else showToast ''No resized image to download. Resize first!'' ''error'' st)"

definition downloadAll :: "state \<Rightarrow> state" where
  "downloadAll st =
     (let resizedFiles = filter (\<lambda>f. resizedBlob f \<noteq> None) (files st)
      in if resizedFiles = [] then showToast ''No resized images to download'' ''error'' st
         else showToast
                (toString (Num (of_int (int (length resizedFiles)))) @ '' images downloaded!'')
                ''success''
                (foldl (\<lambda>s item. triggerDownload (resizedUrl item) (downloadName item st) s)
                   st resizedFiles))"

section \<open>Example inputs\<close>

text \<open>The state literal of \<^verbatim>\<open>script.js\<close>, with empty fields and no toast yet.\<close>

definition initialState :: state where
  "initialState =
     \<lparr>files = [], activeIndex = 0, aspectLocked = True, aspectRatio = 1,
      originalWidth = 0, originalHeight = 0, outputFormat = ''image/jpeg'', outputExt = ''jpg'',
      quality = fl (9 / 10), widthInput = [], heightInput = [], savedPercent = [],
      savedPercentClasses = {}, toasts = [], objectUrls = {}, nextUrl = 0, downloads = []\<rparr>"

definition photo :: js_file where
  "photo = \<lparr>file_name = ''photo.png'', file_type = ''image/png'', file_size = 2048\<rparr>"




text \<open>
  A decoder under which every file decodes to an 800 by 600 image, and one under which
  the file of a given name does not decode.
\<close>

definition decodeAll :: decoder where
  "decodeAll f = Some (''data:'' @ file_name f, 800, 600)"

definition decodeExcept :: "string \<Rightarrow> decoder" where
  "decodeExcept name f = (if file_name f = name then None else decodeAll f)"

section \<open>Auxiliary notions\<close>



text \<open>A loaded item of a given original size with a resized blob of a given size.\<close>

definition sizedItem :: "int \<Rightarrow> int \<Rightarrow> item" where
  "sizedItem origSize resizedSize =
     \<lparr>file_obj = \<lparr>file_name = ''photo.png'', file_type = ''image/png'', file_size = origSize\<rparr>,
      originalUrl = ''data:photo.png'', naturalWidth = 800, naturalHeight = 600,
      originalSize = origSize,
      resizedBlob = Some \<lparr>blob_size = resizedSize, blob_type = ''image/jpeg''\<rparr>,
      resizedUrl = Some 0\<rparr>"

text \<open>The state after one file, decoded to the given width and height, has been loaded.\<close>

definition decodeAs :: "int \<Rightarrow> int \<Rightarrow> decoder" where
  "decodeAs width height f = Some (''data:'' @ file_name f, width, height)"

definition loaded :: "int \<Rightarrow> int \<Rightarrow> state" where
  "loaded width height = handleFiles (decodeAs width height) [photo] initialState"

text \<open>
  A browser with Pica in which every stage succeeds and the blob has one byte for each
  pixel of the target; the same browser with one data URL that does not load; and the
  same browser when the canvas encoder under \<^verbatim>\<open>pica.toBlob\<close> calls back with \<^verbatim>\<open>null\<close>.
\<close>

definition area :: "number \<Rightarrow> number \<Rightarrow> int" where
  "area w h = (case w of NaN \<Rightarrow> 0 | Num a \<Rightarrow> (case h of NaN \<Rightarrow> 0 | Num b \<Rightarrow> \<lfloor>a * b\<rfloor>))"

definition okBrowser :: browser where
  "okBrowser =
     \<lparr>picaInstance = True,
      imageLoads = (\<lambda>url. True),
      pica_resize = (\<lambda>item w h. None),
      pica_toBlob =
        (\<lambda>item w h format q. Inr (Some \<lparr>blob_size = area w h, blob_type = format\<rparr>)),
      canvas_toBlob = (\<lambda>item w h format q. Some \<lparr>blob_size = area w h, blob_type = format\<rparr>),
      nullBlobMessage = ''Overload resolution failed.''\<rparr>"

definition failingOn :: "string \<Rightarrow> browser" where
  "failingOn url = okBrowser\<lparr>imageLoads := (\<lambda>u. u \<noteq> url)\<rparr>"

definition nullBlobBrowser :: browser where
  "nullBlobBrowser = okBrowser\<lparr>pica_toBlob := (\<lambda>item w h format q. Inr None)\<rparr>"

definition fileA :: js_file where
  "fileA = \<lparr>file_name = ''a.png'', file_type = ''image/png'', file_size = 4096\<rparr>"

definition fileB :: js_file where
  "fileB = \<lparr>file_name = ''b.png'', file_type = ''image/png'', file_size = 4096\<rparr>"

definition fileC :: js_file where
  "fileC = \<lparr>file_name = ''c.tar.gif'', file_type = ''image/gif'', file_size = 4096\<rparr>"

text \<open>Three files loaded from the initial state, each 800 by 600; then a width is typed.\<close>

definition batch3 :: state where
  "batch3 = handleFiles decodeAll [fileA, fileB, fileC] initialState"

text \<open>The batch with 100, with 10001 and with 100.9 typed into the width field.\<close>

definition typed100 :: state where
  "typed100 = onWidthInput ''100'' batch3"

definition typed10001 :: state where
  "typed10001 = onWidthInput ''10001'' batch3"

definition typedFraction :: state where
  "typedFraction = onWidthInput ''100.9'' batch3"

text \<open>The first of the three images resized to 100 by 75.\<close>

definition resizedOnce :: state where
  "resizedOnce = resizeCurrent okBrowser typed100"

text \<open>Then 200 is typed as the width (the lock makes the height 150).\<close>

definition typed200 :: state where
  "typed200 = onWidthInput ''200'' resizedOnce"


section \<open>The example states, evaluated\<close>

lemma batch3_eq [code]:
  "batch3 =
     \<lparr>files =
     [\<lparr>file_obj =
     \<lparr>file_name = ''a.png'', file_type = ''image/png'',
     file_size = 4096\<rparr>,
     originalUrl = ''data:a.png'', naturalWidth = 800,
     naturalHeight = 600, originalSize = 4096, resizedBlob = None,
     resizedUrl = None\<rparr>,
     \<lparr>file_obj =
     \<lparr>file_name = ''b.png'', file_type = ''image/png'',
     file_size = 4096\<rparr>,
     originalUrl = ''data:b.png'', naturalWidth = 800,
     naturalHeight = 600, originalSize = 4096, resizedBlob = None,
     resizedUrl = None\<rparr>,
     \<lparr>file_obj =
     \<lparr>file_name = ''c.tar.gif'', file_type = ''image/gif'',
     file_size = 4096\<rparr>,
     originalUrl = ''data:c.tar.gif'', naturalWidth = 800,
     naturalHeight = 600, originalSize = 4096, resizedBlob = None,
     resizedUrl = None\<rparr>],
     activeIndex = 0, aspectLocked = True,
     aspectRatio = 6004799503160661 / 4503599627370496, originalWidth = 800,
     originalHeight = 600, outputFormat = ''image/jpeg'',
     outputExt = ''jpg'', quality = 8106479329266893 / 9007199254740992,
     widthInput = ''800'', heightInput = ''600'', savedPercent = [],
     savedPercentClasses = {}, toasts = [(''3 images loaded'', ''success'')],
     objectUrls = {}, nextUrl = 0, downloads = []\<rparr>"
  by code_simp

lemma typed100_eq [code]:
  "typed100 =
     \<lparr>files =
     [\<lparr>file_obj =
     \<lparr>file_name = ''a.png'', file_type = ''image/png'',
     file_size = 4096\<rparr>,
     originalUrl = ''data:a.png'', naturalWidth = 800,
     naturalHeight = 600, originalSize = 4096, resizedBlob = None,
     resizedUrl = None\<rparr>,
     \<lparr>file_obj =
     \<lparr>file_name = ''b.png'', file_type = ''image/png'',
     file_size = 4096\<rparr>,
     originalUrl = ''data:b.png'', naturalWidth = 800,
     naturalHeight = 600, originalSize = 4096, resizedBlob = None,
     resizedUrl = None\<rparr>,
     \<lparr>file_obj =
     \<lparr>file_name = ''c.tar.gif'', file_type = ''image/gif'',
     file_size = 4096\<rparr>,
     originalUrl = ''data:c.tar.gif'', naturalWidth = 800,
     naturalHeight = 600, originalSize = 4096, resizedBlob = None,
     resizedUrl = None\<rparr>],
     activeIndex = 0, aspectLocked = True,
     aspectRatio = 6004799503160661 / 4503599627370496, originalWidth = 800,
     originalHeight = 600, outputFormat = ''image/jpeg'',
     outputExt = ''jpg'', quality = 8106479329266893 / 9007199254740992,
     widthInput = ''100'', heightInput = ''75'', savedPercent = [],
     savedPercentClasses = {}, toasts = [(''3 images loaded'', ''success'')],
     objectUrls = {}, nextUrl = 0, downloads = []\<rparr>"
  by code_simp

lemma typed10001_eq [code]:
  "typed10001 =
     \<lparr>files =
     [\<lparr>file_obj =
     \<lparr>file_name = ''a.png'', file_type = ''image/png'',
     file_size = 4096\<rparr>,
     originalUrl = ''data:a.png'', naturalWidth = 800,
     naturalHeight = 600, originalSize = 4096, resizedBlob = None,
     resizedUrl = None\<rparr>,
     \<lparr>file_obj =
     \<lparr>file_name = ''b.png'', file_type = ''image/png'',
     file_size = 4096\<rparr>,
     originalUrl = ''data:b.png'', naturalWidth = 800,
     naturalHeight = 600, originalSize = 4096, resizedBlob = None,
     resizedUrl = None\<rparr>,
     \<lparr>file_obj =
     \<lparr>file_name = ''c.tar.gif'', file_type = ''image/gif'',
     file_size = 4096\<rparr>,
     originalUrl = ''data:c.tar.gif'', naturalWidth = 800,
     naturalHeight = 600, originalSize = 4096, resizedBlob = None,
     resizedUrl = None\<rparr>],
     activeIndex = 0, aspectLocked = True,
     aspectRatio = 6004799503160661 / 4503599627370496, originalWidth = 800,
     originalHeight = 600, outputFormat = ''image/jpeg'',
     outputExt = ''jpg'', quality = 8106479329266893 / 9007199254740992,
     widthInput = ''10001'', heightInput = ''7501'', savedPercent = [],
     savedPercentClasses = {}, toasts = [(''3 images loaded'', ''success'')],
     objectUrls = {}, nextUrl = 0, downloads = []\<rparr>"
  by code_simp

lemma typedFraction_eq [code]:
  "typedFraction =
     \<lparr>files =
     [\<lparr>file_obj =
     \<lparr>file_name = ''a.png'', file_type = ''image/png'',
     file_size = 4096\<rparr>,
     originalUrl = ''data:a.png'', naturalWidth = 800,
     naturalHeight = 600, originalSize = 4096, resizedBlob = None,
     resizedUrl = None\<rparr>,
     \<lparr>file_obj =
     \<lparr>file_name = ''b.png'', file_type = ''image/png'',
     file_size = 4096\<rparr>,
     originalUrl = ''data:b.png'', naturalWidth = 800,
     naturalHeight = 600, originalSize = 4096, resizedBlob = None,
     resizedUrl = None\<rparr>,
     \<lparr>file_obj =
     \<lparr>file_name = ''c.tar.gif'', file_type = ''image/gif'',
     file_size = 4096\<rparr>,
     originalUrl = ''data:c.tar.gif'', naturalWidth = 800,
     naturalHeight = 600, originalSize = 4096, resizedBlob = None,
     resizedUrl = None\<rparr>],
     activeIndex = 0, aspectLocked = True,
     aspectRatio = 6004799503160661 / 4503599627370496, originalWidth = 800,
     originalHeight = 600, outputFormat = ''image/jpeg'',
     outputExt = ''jpg'', quality = 8106479329266893 / 9007199254740992,
     widthInput = ''100.9'', heightInput = ''75'', savedPercent = [],
     savedPercentClasses = {}, toasts = [(''3 images loaded'', ''success'')],
     objectUrls = {}, nextUrl = 0, downloads = []\<rparr>"
  by code_simp

lemma resizedOnce_eq [code]:
  "resizedOnce =
     \<lparr>files =
     [\<lparr>file_obj =
     \<lparr>file_name = ''a.png'', file_type = ''image/png'',
     file_size = 4096\<rparr>,
     originalUrl = ''data:a.png'', naturalWidth = 800,
     naturalHeight = 600, originalSize = 4096,
     resizedBlob = Some \<lparr>blob_size = 7500, blob_type = ''image/jpeg''\<rparr>,
     resizedUrl = Some 0\<rparr>,
     \<lparr>file_obj =
     \<lparr>file_name = ''b.png'', file_type = ''image/png'',
     file_size = 4096\<rparr>,
     originalUrl = ''data:b.png'', naturalWidth = 800,
     naturalHeight = 600, originalSize = 4096, resizedBlob = None,
     resizedUrl = None\<rparr>,
     \<lparr>file_obj =
     \<lparr>file_name = ''c.tar.gif'', file_type = ''image/gif'',
     file_size = 4096\<rparr>,
     originalUrl = ''data:c.tar.gif'', naturalWidth = 800,
     naturalHeight = 600, originalSize = 4096, resizedBlob = None,
     resizedUrl = None\<rparr>],
     activeIndex = 0, aspectLocked = True,
     aspectRatio = 6004799503160661 / 4503599627370496, originalWidth = 800,
     originalHeight = 600, outputFormat = ''image/jpeg'',
     outputExt = ''jpg'', quality = 8106479329266893 / 9007199254740992,
     widthInput = ''100'', heightInput = ''75'',
     savedPercent = ''83.1% larger'',
     savedPercentClasses = {''text-red-500''},
     toasts =
     [(''3 images loaded'', ''success''),
     (''Image resized successfully!'', ''success'')],
     objectUrls = {0}, nextUrl = 1, downloads = []\<rparr>"
  by code_simp

lemma typed200_eq [code]:
  "typed200 =
     \<lparr>files =
     [\<lparr>file_obj =
     \<lparr>file_name = ''a.png'', file_type = ''image/png'',
     file_size = 4096\<rparr>,
     originalUrl = ''data:a.png'', naturalWidth = 800,
     naturalHeight = 600, originalSize = 4096,
     resizedBlob = Some \<lparr>blob_size = 7500, blob_type = ''image/jpeg''\<rparr>,
     resizedUrl = Some 0\<rparr>,
     \<lparr>file_obj =
     \<lparr>file_name = ''b.png'', file_type = ''image/png'',
     file_size = 4096\<rparr>,
     originalUrl = ''data:b.png'', naturalWidth = 800,
     naturalHeight = 600, originalSize = 4096, resizedBlob = None,
     resizedUrl = None\<rparr>,
     \<lparr>file_obj =
     \<lparr>file_name = ''c.tar.gif'', file_type = ''image/gif'',
     file_size = 4096\<rparr>,
     originalUrl = ''data:c.tar.gif'', naturalWidth = 800,
     naturalHeight = 600, originalSize = 4096, resizedBlob = None,
     resizedUrl = None\<rparr>],
     activeIndex = 0, aspectLocked = True,
     aspectRatio = 6004799503160661 / 4503599627370496, originalWidth = 800,
     originalHeight = 600, outputFormat = ''image/jpeg'',
     outputExt = ''jpg'', quality = 8106479329266893 / 9007199254740992,
     widthInput = ''200'', heightInput = ''150'',
     savedPercent = ''83.1% larger'',
     savedPercentClasses = {''text-red-500''},
     toasts =
     [(''3 images loaded'', ''success''),
     (''Image resized successfully!'', ''success'')],
     objectUrls = {0}, nextUrl = 1, downloads = []\<rparr>"
  by code_simp

lemma resizeAll_typed100_eq:
  "resizeAll okBrowser typed100 =
     \<lparr>files =
     [\<lparr>file_obj =
     \<lparr>file_name = ''a.png'', file_type = ''image/png'',
     file_size = 4096\<rparr>,
     originalUrl = ''data:a.png'', naturalWidth = 800,
     naturalHeight = 600, originalSize = 4096,
     resizedBlob = Some \<lparr>blob_size = 7500, blob_type = ''image/jpeg''\<rparr>,
     resizedUrl = Some 0\<rparr>,
     \<lparr>file_obj =
     \<lparr>file_name = ''b.png'', file_type = ''image/png'',
     file_size = 4096\<rparr>,
     originalUrl = ''data:b.png'', naturalWidth = 800,
     naturalHeight = 600, originalSize = 4096,
     resizedBlob = Some \<lparr>blob_size = 7500, blob_type = ''image/jpeg''\<rparr>,
     resizedUrl = Some 1\<rparr>,
     \<lparr>file_obj =
     \<lparr>file_name = ''c.tar.gif'', file_type = ''image/gif'',
     file_size = 4096\<rparr>,
     originalUrl = ''data:c.tar.gif'', naturalWidth = 800,
     naturalHeight = 600, originalSize = 4096,
     resizedBlob = Some \<lparr>blob_size = 7500, blob_type = ''image/jpeg''\<rparr>,
     resizedUrl = Some 2\<rparr>],
     activeIndex = 0, aspectLocked = True,
     aspectRatio = 6004799503160661 / 4503599627370496, originalWidth = 800,
     originalHeight = 600, outputFormat = ''image/jpeg'',
     outputExt = ''jpg'', quality = 8106479329266893 / 9007199254740992,
     widthInput = ''800'', heightInput = ''600'',
     savedPercent = ''83.1% larger'',
     savedPercentClasses = {''text-red-500''},
     toasts =
     [(''3 images loaded'', ''success''),
     (''All 3 images resized!'', ''success'')],
     objectUrls = {2, 1, 0}, nextUrl = 3, downloads = []\<rparr>"
  by code_simp

lemma loaded_800_600_eq:
  "loaded 800 600 =
     \<lparr>files =
     [\<lparr>file_obj =
     \<lparr>file_name = ''photo.png'', file_type = ''image/png'',
     file_size = 2048\<rparr>,
     originalUrl = ''data:photo.png'', naturalWidth = 800,
     naturalHeight = 600, originalSize = 2048, resizedBlob = None,
     resizedUrl = None\<rparr>],
     activeIndex = 0, aspectLocked = True,
     aspectRatio = 6004799503160661 / 4503599627370496, originalWidth = 800,
     originalHeight = 600, outputFormat = ''image/jpeg'',
     outputExt = ''jpg'', quality = 8106479329266893 / 9007199254740992,
     widthInput = ''800'', heightInput = ''600'', savedPercent = [],
     savedPercentClasses = {}, toasts = [(''1 image loaded'', ''success'')],
     objectUrls = {}, nextUrl = 0, downloads = []\<rparr>"
  by code_simp

lemma loaded_2_75_eq:
  "loaded 2 75 =
     \<lparr>files =
     [\<lparr>file_obj =
     \<lparr>file_name = ''photo.png'', file_type = ''image/png'',
     file_size = 2048\<rparr>,
     originalUrl = ''data:photo.png'', naturalWidth = 2,
     naturalHeight = 75, originalSize = 2048, resizedBlob = None,
     resizedUrl = None\<rparr>],
     activeIndex = 0, aspectLocked = True,
     aspectRatio = 7686143364045647 / 288230376151711744, originalWidth = 2,
     originalHeight = 75, outputFormat = ''image/jpeg'', outputExt = ''jpg'',
     quality = 8106479329266893 / 9007199254740992, widthInput = ''2'',
     heightInput = ''75'', savedPercent = [], savedPercentClasses = {},
     toasts = [(''1 image loaded'', ''success'')], objectUrls = {},
     nextUrl = 0, downloads = []\<rparr>"
  by code_simp

lemma loaded_2_1_eq:
  "loaded 2 1 =
     \<lparr>files =
     [\<lparr>file_obj =
     \<lparr>file_name = ''photo.png'', file_type = ''image/png'',
     file_size = 2048\<rparr>,
     originalUrl = ''data:photo.png'', naturalWidth = 2,
     naturalHeight = 1, originalSize = 2048, resizedBlob = None,
     resizedUrl = None\<rparr>],
     activeIndex = 0, aspectLocked = True, aspectRatio = 2,
     originalWidth = 2, originalHeight = 1, outputFormat = ''image/jpeg'',
     outputExt = ''jpg'', quality = 8106479329266893 / 9007199254740992,
     widthInput = ''2'', heightInput = ''1'', savedPercent = [],
     savedPercentClasses = {}, toasts = [(''1 image loaded'', ''success'')],
     objectUrls = {}, nextUrl = 0, downloads = []\<rparr>"
  by code_simp

section \<open>The loader rejects per file\<close>

lemma files_showToast [simp]: "files (showToast m t st) = files st"
  by (simp add: showToast_def)

lemma toasts_showToast [simp]: "toasts (showToast m t st) = toasts st @ [(m, t)]"
  by (simp add: showToast_def)

lemma files_showResults [simp]: "files (showResults it st) = files st"
  by (simp add: showResults_def Let_def split: option.splits)

lemma toasts_showResults [simp]: "toasts (showResults it st) = toasts st"
  by (simp add: showResults_def Let_def split: option.splits)

lemma files_selectFile [simp]: "files (selectFile i st) = files st"
  by (simp add: selectFile_def Let_def split: option.splits)

lemma toasts_selectFile [simp]: "toasts (selectFile i st) = toasts st"
  by (simp add: selectFile_def Let_def split: option.splits)








lemma loadImage_file_obj: "loadImage decode f = Some it \<Longrightarrow> file_obj it = f"
  by (auto simp: loadImage_def split: option.splits)





section \<open>Rounding to a double\<close>

lemma pow2_powi: "pow2 k = 2 powi k"
proof (cases "0 \<le> k")
  case True
  then show ?thesis by (simp add: pow2_def power_int_def)
next
  case False
  then have "pow2 k = 1 / 2 ^ nat (- k)" by (simp add: pow2_def)
  also have "\<dots> = inverse ((2::rat) ^ nat (- k))" by (simp only: inverse_eq_divide)
  also have "\<dots> = inverse 2 ^ nat (- k)" by (simp only: power_inverse)
  also have "\<dots> = 2 powi k" using False by (simp only: power_int_def if_False)
  finally show ?thesis .
qed

lemma pow2_pos [simp]: "0 < pow2 k"
  by (simp add: pow2_powi)

lemma pow2_add: "pow2 (a + b) = pow2 a * pow2 b"
  by (simp add: pow2_powi power_int_add)

lemma pow2_nat: "pow2 (int n) = 2 ^ n"
  by (simp add: pow2_def)

lemma pow2_mono: "a \<le> b \<Longrightarrow> pow2 a \<le> pow2 b"
  by (simp add: pow2_powi power_int_increasing)

lemma round_half_even_error: "\<bar>of_int (round_half_even m) - m\<bar> \<le> 1 / 2"
proof -
  have "of_int \<lfloor>m\<rfloor> \<le> m" "m < of_int \<lfloor>m\<rfloor> + 1"
    by linarith+
  then show ?thesis
    by (auto simp: round_half_even_def Let_def)
qed

lemma round_half_even_of_int [simp]: "round_half_even (of_int k) = k"
  by (simp add: round_half_even_def)

lemma binade_bounds:
  assumes "0 < a"
  shows "pow2 (binade a) \<le> a" and "a < pow2 (binade a + 1)"
proof -
  obtain p q where pq: "quotient_of a = (p, q)"
    by (cases "quotient_of a")
  then have q: "0 < q" and a: "a = of_int p / of_int q"
    by (auto simp: quotient_of_denom_pos quotient_of_div)
  with assms have p: "0 < p"
    by (simp add: zero_less_divide_iff)
  let ?d = "bitlen p - bitlen q"
  have bp: "2 ^ nat (bitlen p - 1) \<le> p" "p < 2 ^ nat (bitlen p)"
    using bitlen_bounds [OF p] by auto
  have bq: "2 ^ nat (bitlen q - 1) \<le> q" "q < 2 ^ nat (bitlen q)"
    using bitlen_bounds [OF q] by auto
  have lp: "1 \<le> bitlen p" and lq: "1 \<le> bitlen q"
    using p q by (simp_all add: bitlen_def floorlog_def)
  have P1: "(2::rat) ^ nat (bitlen p - 1) \<le> of_int p"
    using bp(1) by (metis of_int_le_iff of_int_numeral of_int_power)
  have P2: "of_int p < (2::rat) ^ nat (bitlen p)"
    using bp(2) by (metis of_int_less_iff of_int_numeral of_int_power)
  have Q1: "(2::rat) ^ nat (bitlen q - 1) \<le> of_int q"
    using bq(1) by (metis of_int_le_iff of_int_numeral of_int_power)
  have Q2: "of_int q \<le> (2::rat) ^ nat (bitlen q)"
    using bq(2) by (metis less_imp_le of_int_less_iff of_int_numeral of_int_power)
  have e1: "pow2 (?d - 1) = 2 ^ nat (bitlen p - 1) / 2 ^ nat (bitlen q)"
  proof -
    have "?d - 1 = int (nat (bitlen p - 1)) + - int (nat (bitlen q))"
      using lp lq by linarith
    then have "pow2 (?d - 1) = pow2 (int (nat (bitlen p - 1)) + - int (nat (bitlen q)))"
      by (simp only:)
    also have "\<dots> = pow2 (int (nat (bitlen p - 1))) * pow2 (- int (nat (bitlen q)))"
      by (rule pow2_add)
    also have "\<dots> = 2 ^ nat (bitlen p - 1) / 2 ^ nat (bitlen q)"
      using lq by (simp add: pow2_nat) (simp add: pow2_def)
    finally show ?thesis .
  qed
  have e2: "pow2 (?d + 1) = 2 ^ nat (bitlen p) / 2 ^ nat (bitlen q - 1)"
  proof -
    have "?d + 1 = int (nat (bitlen p)) + - int (nat (bitlen q - 1))"
      using lp lq by linarith
    then have "pow2 (?d + 1) = pow2 (int (nat (bitlen p)) + - int (nat (bitlen q - 1)))"
      by (simp only:)
    also have "\<dots> = pow2 (int (nat (bitlen p))) * pow2 (- int (nat (bitlen q - 1)))"
      by (rule pow2_add)
    also have "\<dots> = 2 ^ nat (bitlen p) / 2 ^ nat (bitlen q - 1)"
      by (simp add: pow2_nat) (simp add: pow2_def)
    finally show ?thesis .
  qed
  have low: "pow2 (?d - 1) \<le> a"
    unfolding e1 a using P1 Q2 p q by (intro frac_le) simp_all
  have up: "a < pow2 (?d + 1)"
    unfolding e2 a using P2 Q1 p q by (intro frac_less) simp_all
  show "pow2 (binade a) \<le> a"
    using low pq by (simp add: binade_def Let_def)
  show "a < pow2 (binade a + 1)"
    using up pq by (auto simp: binade_def Let_def not_le)
qed

lemma fl_error: "\<bar>fl x - x\<bar> \<le> \<bar>x\<bar> / 2 ^ 53"
proof (cases "x = 0")
  case True
  then show ?thesis by (simp add: fl_def)
next
  case False
  define a where "a = \<bar>x\<bar>"
  define u where "u = pow2 (binade a - 52)"
  define r where "r = of_int (round_half_even (a / u)) * u"
  from False have apos: "0 < a" by (simp add: a_def)
  have upos: "0 < u" by (simp add: u_def)
  have "\<bar>r - a\<bar> = \<bar>of_int (round_half_even (a / u)) - a / u\<bar> * u"
  proof -
    have "r - a = (of_int (round_half_even (a / u)) - a / u) * u"
      using upos by (simp add: r_def algebra_simps)
    then show ?thesis using upos by (simp add: abs_mult)
  qed
  also have "\<dots> \<le> 1 / 2 * u"
    using round_half_even_error [of "a / u"] upos by (intro mult_right_mono) simp_all
  also have "\<dots> = pow2 (binade a) / 2 ^ 53"
  proof -
    have "pow2 (binade a) = pow2 ((binade a - 52) + 52)" by simp
    also have "\<dots> = u * pow2 52" unfolding u_def by (rule pow2_add)
    finally show ?thesis by (simp add: pow2_def)
  qed
  also have "\<dots> \<le> a / 2 ^ 53"
    using binade_bounds(1) [OF apos] by (simp add: divide_right_mono)
  finally have main: "\<bar>r - a\<bar> \<le> a / 2 ^ 53" .
  have "fl x - x = (if x < 0 then - (r - a) else r - a)"
    using False by (simp add: fl_def Let_def a_def u_def r_def)
  then have "\<bar>fl x - x\<bar> = \<bar>r - a\<bar>"
    by (simp split: if_splits)
  with main show ?thesis by (simp add: a_def)
qed

lemma round_half_even_nonneg: "0 \<le> m \<Longrightarrow> 0 \<le> round_half_even m"
  by (auto simp: round_half_even_def Let_def)

lemma fl_nonneg:
  assumes "0 \<le> x"
  shows "0 \<le> fl x"
proof (cases "x = 0")
  case True
  then show ?thesis by (simp add: fl_def)
next
  case False
  from assms have "0 \<le> x / pow2 (binade x - 52)"
    by (intro divide_nonneg_pos pow2_pos)
  then have "0 \<le> round_half_even (x / pow2 (binade x - 52))"
    by (rule round_half_even_nonneg)
  then have "0 \<le> of_int (round_half_even (x / pow2 (binade x - 52))) * pow2 (binade x - 52)"
    by (intro mult_nonneg_nonneg less_imp_le [OF pow2_pos]) simp
  with False assms show ?thesis by (simp add: fl_def Let_def)
qed

lemma fl_minus: "fl (- x) = - fl x"
  by (simp add: fl_def Let_def)

lemma nearest_of_close:
  fixes s :: rat and a b :: int
  assumes b: "0 < b" and close: "\<bar>s - of_int a / of_int b\<bar> < 1 / (2 * of_int b)"
  shows "\<bar>of_int \<lfloor>s + 1 / 2\<rfloor> - of_int a / of_int b\<bar> \<le> (1 / 2 :: rat)"
proof -
  define n where "n = \<lfloor>s + 1 / 2\<rfloor>"
  define B :: rat where "B = of_int b"
  have B: "0 < B" using b by (simp add: B_def)
  have n1: "of_int n \<le> s + 1 / 2" and n2: "s + 1 / 2 < of_int n + 1"
    unfolding n_def by linarith+
  have upper: "of_int n - of_int a / B \<le> 1 / 2"
  proof (rule ccontr)
    assume "\<not> of_int n - of_int a / B \<le> 1 / 2"
    then have "of_int a / B < of_int n - 1 / 2" by linarith
    then have "of_int a < (of_int n - 1 / 2) * B"
      using B by (simp add: pos_divide_less_eq)
    then have "2 * of_int a < (2 * of_int n - 1) * B"
      by (simp add: algebra_simps)
    then have "(of_int (2 * a) :: rat) < of_int ((2 * n - 1) * b)"
      by (simp add: B_def)
    then have "2 * a < (2 * n - 1) * b"
      by (simp only: of_int_less_iff)
    then have "2 * a + 1 \<le> (2 * n - 1) * b" by simp
    then have "(of_int (2 * a + 1) :: rat) \<le> of_int ((2 * n - 1) * b)"
      by (simp only: of_int_le_iff)
    then have "2 * of_int a + 1 \<le> (2 * of_int n - 1) * B"
      by (simp add: B_def)
    then have "(2 * of_int a + 1) / (2 * B) \<le> (2 * of_int n - 1) * B / (2 * B)"
      using B by (intro divide_right_mono) simp_all
    moreover have "(2 * of_int a + 1) / (2 * B) = of_int a / B + 1 / (2 * B)"
      using B by (simp add: field_simps)
    moreover have "(2 * of_int n - 1) * B / (2 * B) = of_int n - 1 / 2"
      using B by (simp add: field_simps)
    ultimately have "of_int a / B + 1 / (2 * B) \<le> of_int n - 1 / 2"
      by simp
    with n1 have "1 / (2 * B) \<le> s - of_int a / B" by simp
    with close show False by (simp add: B_def)
  qed
  have lower: "of_int a / B - of_int n \<le> 1 / 2"
  proof (rule ccontr)
    assume "\<not> of_int a / B - of_int n \<le> 1 / 2"
    then have "of_int n + 1 / 2 < of_int a / B" by linarith
    then have "(of_int n + 1 / 2) * B < of_int a"
      using B by (simp add: pos_less_divide_eq)
    then have "(2 * of_int n + 1) * B < 2 * of_int a"
      by (simp add: algebra_simps)
    then have "(of_int ((2 * n + 1) * b) :: rat) < of_int (2 * a)"
      by (simp add: B_def)
    then have "(2 * n + 1) * b < 2 * a"
      by (simp only: of_int_less_iff)
    then have "(2 * n + 1) * b + 1 \<le> 2 * a" by simp
    then have "(of_int ((2 * n + 1) * b + 1) :: rat) \<le> of_int (2 * a)"
      by (simp only: of_int_le_iff)
    then have "(2 * of_int n + 1) * B + 1 \<le> 2 * of_int a"
      by (simp add: B_def)
    then have "((2 * of_int n + 1) * B + 1) / (2 * B) \<le> 2 * of_int a / (2 * B)"
      using B by (intro divide_right_mono) simp_all
    moreover have "((2 * of_int n + 1) * B + 1) / (2 * B) = of_int n + 1 / 2 + 1 / (2 * B)"
      using B by (simp add: field_simps)
    ultimately have "of_int n + 1 / 2 + 1 / (2 * B) \<le> of_int a / B"
      by simp
    with n2 have "1 / (2 * B) < of_int a / B - s" by simp
    with close show False by (simp add: B_def)
  qed
  from upper lower show ?thesis
    unfolding n_def B_def by linarith
qed

lemma fl_of_int:
  assumes "\<bar>n\<bar> < 2 ^ 53"
  shows "fl (of_int n) = of_int n"
proof (cases "n = 0")
  case True
  then show ?thesis by (simp add: fl_def)
next
  case False
  define a :: rat where "a = \<bar>of_int n\<bar>"
  define e where "e = binade a"
  from False have apos: "0 < a" by (simp add: a_def)
  have a_int: "a = of_int \<bar>n\<bar>" by (simp add: a_def)
  have "a < 2 ^ 53"
    using assms unfolding a_int by (metis of_int_less_iff of_int_numeral of_int_power)
  with binade_bounds(1) [OF apos] have "pow2 e < pow2 53"
    by (simp add: e_def pow2_def)
  then have e: "e \<le> 52"
    using pow2_mono [of 53 e] by (cases "e \<le> 52") auto
  have u: "pow2 (e - 52) = 1 / 2 ^ nat (52 - e)"
  proof (cases "e = 52")
    case True
    then show ?thesis by (simp add: pow2_def)
  next
    case False
    with e show ?thesis by (simp add: pow2_def)
  qed
  have "a / pow2 (e - 52) = of_int (\<bar>n\<bar> * 2 ^ nat (52 - e))"
    by (simp add: u a_int)
  then have "round_half_even (a / pow2 (e - 52)) = \<bar>n\<bar> * 2 ^ nat (52 - e)"
    by (simp only: round_half_even_of_int)
  then have r: "of_int (round_half_even (a / pow2 (e - 52))) * pow2 (e - 52) = a"
    by (simp add: u a_int)
  show ?thesis
    using False r by (simp add: fl_def Let_def a_def [symmetric] e_def [symmetric])
       (simp add: a_def)
qed

section \<open>The savings figure\<close>

lemma percentOf_nearest:
  assumes d: "0 \<le> d" "d < 2 ^ 40" and orig: "0 < orig"
  shows "0 \<le> percentOf d orig"
    and "\<bar>of_int \<lfloor>percentOf d orig * 10 + 1 / 2\<rfloor> / 10 - 100 * of_int d / of_int orig\<bar> \<le> (1 / 20 :: rat)"
proof -
  define t :: rat where "t = of_int d / of_int orig"
  define q where "q = fl t"
  define p where "p = fl (q * 100)"
  have p_eq: "percentOf d orig = p"
    by (simp add: percentOf_def p_def q_def t_def)
  have O: "0 < (of_int orig :: rat)" using orig by simp
  have t0: "0 \<le> t" using d orig by (simp add: t_def)
  have q0: "0 \<le> q" unfolding q_def using t0 by (rule fl_nonneg)
  then have p0: "0 \<le> p" unfolding p_def by (intro fl_nonneg) simp
  show "0 \<le> percentOf d orig" using p0 p_eq by simp
  have e1: "\<bar>q - t\<bar> \<le> t / 9007199254740992"
    using fl_error [of t] t0 by (simp add: q_def)
  have e2: "\<bar>p - q * 100\<bar> \<le> q * 100 / 9007199254740992"
    using fl_error [of "q * 100"] q0 by (simp add: p_def)
  have e3: "\<bar>p * 10 - 1000 * t\<bar> \<le> 3000 * t / 9007199254740992"
    using e1 e2 t0 q0 by linarith
  have "6000 * d < 2 ^ 53" using d by simp
  then have "(of_int (6000 * d) :: rat) < of_int (2 ^ 53)"
    by (simp only: of_int_less_iff)
  then have d53: "6000 * (of_int d :: rat) < 9007199254740992" by simp
  have "3000 * t / 9007199254740992 < 1 / (2 * of_int orig)"
  proof -
    have "3000 * t / 9007199254740992 = (6000 * of_int d / 9007199254740992) / (2 * of_int orig)"
      using O by (simp add: t_def field_simps)
    also have "\<dots> < 1 / (2 * of_int orig)"
      using O d53 by (intro divide_strict_right_mono) simp_all
    finally show ?thesis .
  qed
  with e3 have "\<bar>p * 10 - 1000 * t\<bar> < 1 / (2 * of_int orig)" by linarith
  moreover have "1000 * t = of_int (1000 * d) / of_int orig" by (simp add: t_def)
  ultimately have "\<bar>p * 10 - of_int (1000 * d) / of_int orig\<bar> < 1 / (2 * of_int orig)" by simp
  from nearest_of_close [OF orig this]
  have "\<bar>of_int \<lfloor>p * 10 + 1 / 2\<rfloor> - of_int (1000 * d) / of_int orig\<bar> \<le> (1 / 2 :: rat)" .
  then have "\<bar>of_int \<lfloor>p * 10 + 1 / 2\<rfloor> / 10 - 100 * of_int d / of_int orig\<bar> \<le> (1 / 20 :: rat)"
    by (simp add: field_simps abs_le_iff) 
  then show "\<bar>of_int \<lfloor>percentOf d orig * 10 + 1 / 2\<rfloor> / 10 - 100 * of_int d / of_int orig\<bar> \<le> (1 / 20 :: rat)"
    by (simp add: p_eq)
qed

lemma toFixed1_nonneg:
  "0 \<le> x \<Longrightarrow>
     toFixed1 x = decimal (\<lfloor>x * 10 + 1 / 2\<rfloor> div 10) @ ''.'' @ decimal (\<lfloor>x * 10 + 1 / 2\<rfloor> mod 10)"
  by (simp add: toFixed1_def Let_def)

lemma savedPercent_showResults:
  assumes "resizedBlob item = Some b"
  shows "savedPercent (showResults item st)
     = toFixed1 (percentOf \<bar>originalSize item - blob_size b\<bar> (originalSize item))
         @ (if blob_size b < originalSize item then ''% smaller'' else ''% larger'')"
  using assms by (simp add: showResults_def Let_def)

text \<open>
  C5, as the code has it. For a loaded item with original size \<open>orig > 0\<close> and a resized
  blob of size \<open>r\<close> (their difference below \<open>2^40\<close> bytes), the figure shown is a number with
  one decimal, \<open>n / 10\<close>, within 0.05 of the exact percentage \<open>100 * |orig - r| / orig\<close>, which
  is taken relative to the original size; it is followed by "smaller" when \<open>r < orig\<close> and
  by "larger" otherwise. The percentage is computed in double precision as
  \<^verbatim>\<open>(bytes / origSize) * 100\<close> and printed by \<^verbatim>\<open>toFixed(1)\<close>, so when the exact
  percentage lies half-way between two tenths either of them may be shown.
\<close>

theorem showResults_percent_nearest:
  assumes "resizedBlob item = Some b"
    and "0 < originalSize item"
    and "\<bar>originalSize item - blob_size b\<bar> < 2 ^ 40"
  shows "\<exists>n. 0 \<le> n
     \<and> savedPercent (showResults item st)
         = decimal (n div 10) @ ''.'' @ decimal (n mod 10)
             @ (if blob_size b < originalSize item then ''% smaller'' else ''% larger'')
     \<and> \<bar>of_int n / 10
          - 100 * of_int \<bar>originalSize item - blob_size b\<bar> / of_int (originalSize item)\<bar>
         \<le> (1 / 20 :: rat)"
proof -
  let ?d = "\<bar>originalSize item - blob_size b\<bar>"
  let ?p = "percentOf ?d (originalSize item)"
  let ?n = "\<lfloor>?p * 10 + 1 / 2\<rfloor>"
  have d0: "0 \<le> ?d" by simp
  note near = percentOf_nearest [OF d0 assms(3) assms(2)]
  from near(1) have "0 \<le> ?n" by simp
  moreover have "savedPercent (showResults item st)
      = decimal (?n div 10) @ ''.'' @ decimal (?n mod 10)
          @ (if blob_size b < originalSize item then ''% smaller'' else ''% larger'')"
    using savedPercent_showResults [OF assms(1), of st] toFixed1_nonneg [OF near(1)]
    by simp
  ultimately show ?thesis
    using near(2) by blast
qed

theorem showResults_percent_nearest_witness:
  "resizedBlob (sizedItem 1000 600) = Some \<lparr>blob_size = 600, blob_type = ''image/jpeg''\<rparr>
   \<and> 0 < originalSize (sizedItem 1000 600)
   \<and> \<bar>originalSize (sizedItem 1000 600) - 600\<bar> < 2 ^ 40
   \<and> (\<exists>n. 0 \<le> n
        \<and> savedPercent (showResults (sizedItem 1000 600) initialState)
            = decimal (n div 10) @ ''.'' @ decimal (n mod 10) @ ''% smaller''
        \<and> \<bar>of_int n / 10 - 100 * of_int \<bar>1000 - 600\<bar> / of_int 1000\<bar> \<le> (1 / 20 :: rat))"
proof -
  have h1: "resizedBlob (sizedItem 1000 600)
      = Some \<lparr>blob_size = 600, blob_type = ''image/jpeg''\<rparr>"
    by (simp add: sizedItem_def)
  have h2: "0 < originalSize (sizedItem 1000 600)"
    by (simp add: sizedItem_def)
  have h3: "\<bar>originalSize (sizedItem 1000 600)
      - blob_size \<lparr>blob_size = 600, blob_type = ''image/jpeg''\<rparr>\<bar> < 2 ^ 40"
    by (simp add: sizedItem_def)
  from showResults_percent_nearest [OF h1 h2 h3, of initialState] h1 h2 h3
  show ?thesis
    by (simp add: sizedItem_def)
qed

text \<open>The two examples of the claim.\<close>

lemma showResults_examples:
  "savedPercent (showResults (sizedItem 1000 600) initialState) = ''40.0% smaller''"
  "savedPercent (showResults (sizedItem 1000 1500) initialState) = ''50.0% larger''"
  by code_simp+

text \<open>
  The counterexample to C5 as stated. An original of 80 bytes resized to 57 bytes saves
  exactly 28.75 percent, which rounds to 28.8 (so does \<^verbatim>\<open>toFixed(1)\<close> on 28.75 itself); the
  code shows 28.7, because \<^verbatim>\<open>(23 / 80) * 100\<close> is a double just below 28.75. Rounding
  half-way cases down does not describe the code either: 1 byte saved of 2000 is exactly
  0.05 percent and is shown as 0.1.
\<close>

theorem showResults_tie_counterexample:
  "savedPercent (showResults (sizedItem 80 57) initialState) = ''28.7% smaller''
   \<and> 100 * of_int \<bar>80 - 57\<bar> / of_int 80 = (2875 / 100 :: rat)
   \<and> toFixed1 (2875 / 100) = ''28.8''
   \<and> savedPercent (showResults (sizedItem 2000 1999) initialState) = ''0.1% smaller''
   \<and> 100 * of_int \<bar>2000 - 1999\<bar> / of_int 2000 = (5 / 100 :: rat)"
  by code_simp

text \<open>
  C9. When the resized size equals the original size, \<^verbatim>\<open>savedBytes > 0\<close> is false: the
  figure is "0.0% larger", in red. "smaller" is shown exactly when the resized size is
  strictly below the original size.
\<close>

theorem showResults_equal_size_larger:
  assumes "resizedBlob item = Some b" and "0 < originalSize item"
  shows "(blob_size b = originalSize item \<longrightarrow>
            savedPercent (showResults item st) = ''0.0% larger''
            \<and> ''text-red-500'' \<in> savedPercentClasses (showResults item st))
         \<and> ((\<exists>p. savedPercent (showResults item st) = p @ ''% smaller'')
              \<longleftrightarrow> blob_size b < originalSize item)"
proof (intro conjI impI)
  assume eq: "blob_size b = originalSize item"
  have "percentOf 0 (originalSize item) = 0"
    by (simp add: percentOf_def fl_def)
  moreover have "toFixed1 0 = ''0.0''"
    by (simp add: toFixed1_def decimal.simps)
  ultimately show "savedPercent (showResults item st) = ''0.0% larger''"
    using assms(1) eq by (simp add: showResults_def Let_def)
  show "''text-red-500'' \<in> savedPercentClasses (showResults item st)"
    using assms(1) eq by (simp add: showResults_def Let_def)
next
  show "(\<exists>p. savedPercent (showResults item st) = p @ ''% smaller'')
          \<longleftrightarrow> blob_size b < originalSize item"
  proof
    assume "\<exists>p. savedPercent (showResults item st) = p @ ''% smaller''"
    then obtain p where p: "savedPercent (showResults item st) = p @ ''% smaller''" ..
    show "blob_size b < originalSize item"
    proof (rule ccontr)
      assume "\<not> blob_size b < originalSize item"
      with savedPercent_showResults [OF assms(1), of st] p
      obtain x where "x @ ''% larger'' = p @ ''% smaller''"
        by auto
      then have "rev (x @ ''% larger'') = rev (p @ ''% smaller'')"
        by (rule arg_cong)
      then show False by simp
    qed
  next
    assume "blob_size b < originalSize item"
    with savedPercent_showResults [OF assms(1), of st]
    show "\<exists>p. savedPercent (showResults item st) = p @ ''% smaller''"
      by auto
  qed
qed

theorem showResults_equal_size_larger_witness:
  "resizedBlob (sizedItem 1000 1000) = Some \<lparr>blob_size = 1000, blob_type = ''image/jpeg''\<rparr>
   \<and> 0 < originalSize (sizedItem 1000 1000)
   \<and> blob_size \<lparr>blob_size = 1000, blob_type = ''image/jpeg''\<rparr> = originalSize (sizedItem 1000 1000)
   \<and> savedPercent (showResults (sizedItem 1000 1000) initialState) = ''0.0% larger''
   \<and> ''text-red-500'' \<in> savedPercentClasses (showResults (sizedItem 1000 1000) initialState)
   \<and> \<not> (\<exists>p. savedPercent (showResults (sizedItem 1000 1000) initialState) = p @ ''% smaller'')"
proof -
  have h1: "resizedBlob (sizedItem 1000 1000)
      = Some \<lparr>blob_size = 1000, blob_type = ''image/jpeg''\<rparr>"
    by (simp add: sizedItem_def)
  have h2: "0 < originalSize (sizedItem 1000 1000)"
    by (simp add: sizedItem_def)
  from showResults_equal_size_larger [OF h1 h2, of initialState] h1 h2
  show ?thesis
    by (simp add: sizedItem_def)
qed

section \<open>The aspect-ratio lock\<close>

lemma fl_error_numeral: "\<bar>fl x - x\<bar> \<le> \<bar>x\<bar> / 9007199254740992"
  using fl_error [of x] by simp

lemma divide_by_ratio_close:
  fixes w W H :: int
  assumes W: "0 < W" and H: "0 < H" and small: "\<bar>w\<bar> * H < 2 ^ 50"
  shows "\<bar>of_int (math_round (fl (of_int w / fl (of_int W / of_int H))))
           - of_int (w * H) / of_int W\<bar> \<le> (1 / 2 :: rat)"
proof -
  define R :: rat where "R = of_int W / of_int H"
  define ar where "ar = fl R"
  define x where "x = of_int w / ar"
  define s where "s = fl x"
  define t where "t = of_int w / R"
  have R: "0 < R" using W H by (simp add: R_def)
  have eR: "\<bar>ar - R\<bar> \<le> R / 9007199254740992"
    using fl_error_numeral [of R] R by (simp add: ar_def)
  with R have ar: "0 < ar" by linarith
  have xar: "x * ar = of_int w" using ar by (simp add: x_def)
  have tR: "t * R = of_int w" using R by (simp add: t_def)
  have "(x - t) * R = x * (R - ar)"
    using xar tR by (simp add: algebra_simps)
  then have "\<bar>x - t\<bar> * R = \<bar>x\<bar> * \<bar>R - ar\<bar>"
    using R by (metis abs_mult abs_of_pos)
  also have "\<dots> \<le> \<bar>x\<bar> * (R / 9007199254740992)"
    using eR by (intro mult_left_mono) (simp_all add: abs_minus_commute)
  also have "\<dots> = (\<bar>x\<bar> / 9007199254740992) * R" by simp
  finally have e1: "\<bar>x - t\<bar> \<le> \<bar>x\<bar> / 9007199254740992"
    using R by (simp only: mult_le_cancel_right_pos)
  have e2: "\<bar>s - x\<bar> \<le> \<bar>x\<bar> / 9007199254740992"
    unfolding s_def by (rule fl_error_numeral)
  have e3: "\<bar>s - t\<bar> \<le> 4 * \<bar>t\<bar> / 9007199254740992"
    using e1 e2 by linarith
  have t_eq: "t = of_int (w * H) / of_int W"
    using W H by (simp add: t_def R_def)
  define m where "m = \<bar>w\<bar> * H"
  have "m < 1125899906842624" using small by (simp add: m_def)
  then have "8 * m < 9007199254740992" by linarith
  then have "(of_int (8 * m) :: rat) < of_int 9007199254740992"
    by (simp only: of_int_less_iff)
  then have w53: "8 * (\<bar>of_int w\<bar> * of_int H) < (9007199254740992 :: rat)"
    by (simp add: m_def)
  have tabs: "\<bar>t\<bar> = \<bar>of_int w\<bar> * of_int H / of_int W"
    using W H by (simp add: t_eq abs_mult)
  have "4 * \<bar>t\<bar> / 9007199254740992 < 1 / (2 * of_int W)"
  proof -
    have "4 * \<bar>t\<bar> / 9007199254740992
        = (8 * (\<bar>of_int w\<bar> * of_int H) / 9007199254740992) / (2 * of_int W)"
      using W by (simp add: tabs field_simps)
    also have "\<dots> < 1 / (2 * of_int W)"
      using W w53 by (intro divide_strict_right_mono) simp_all
    finally show ?thesis .
  qed
  with e3 have "\<bar>s - of_int (w * H) / of_int W\<bar> < 1 / (2 * of_int W)"
    by (simp add: t_eq)
  from nearest_of_close [OF W this] show ?thesis
    by (simp add: math_round_def s_def x_def ar_def R_def)
qed

lemma times_ratio_close:
  fixes h W H :: int
  assumes W: "0 < W" and H: "0 < H" and small: "\<bar>h\<bar> * W < 2 ^ 50"
  shows "\<bar>of_int (math_round (fl (of_int h * fl (of_int W / of_int H))))
           - of_int (h * W) / of_int H\<bar> \<le> (1 / 2 :: rat)"
proof -
  define R :: rat where "R = of_int W / of_int H"
  define ar where "ar = fl R"
  define y where "y = of_int h * ar"
  define s where "s = fl y"
  define t where "t = of_int h * R"
  have R: "0 < R" using W H by (simp add: R_def)
  have eR: "\<bar>ar - R\<bar> \<le> R / 9007199254740992"
    using fl_error_numeral [of R] R by (simp add: ar_def)
  have "y - t = of_int h * (ar - R)"
    by (simp add: y_def t_def algebra_simps)
  then have "\<bar>y - t\<bar> = \<bar>of_int h\<bar> * \<bar>ar - R\<bar>"
    by (simp add: abs_mult)
  also have "\<dots> \<le> \<bar>of_int h\<bar> * (R / 9007199254740992)"
    using eR by (intro mult_left_mono) simp_all
  also have "\<dots> = \<bar>t\<bar> / 9007199254740992"
    using R by (simp add: t_def abs_mult)
  finally have e1: "\<bar>y - t\<bar> \<le> \<bar>t\<bar> / 9007199254740992" .
  have e2: "\<bar>s - y\<bar> \<le> \<bar>y\<bar> / 9007199254740992"
    unfolding s_def by (rule fl_error_numeral)
  have e3: "\<bar>s - t\<bar> \<le> 4 * \<bar>t\<bar> / 9007199254740992"
    using e1 e2 by linarith
  have t_eq: "t = of_int (h * W) / of_int H"
    using W H by (simp add: t_def R_def)
  define m where "m = \<bar>h\<bar> * W"
  have "m < 1125899906842624" using small by (simp add: m_def)
  then have "8 * m < 9007199254740992" by linarith
  then have "(of_int (8 * m) :: rat) < of_int 9007199254740992"
    by (simp only: of_int_less_iff)
  then have w53: "8 * (\<bar>of_int h\<bar> * of_int W) < (9007199254740992 :: rat)"
    by (simp add: m_def)
  have tabs: "\<bar>t\<bar> = \<bar>of_int h\<bar> * of_int W / of_int H"
    using W H by (simp add: t_eq abs_mult)
  have "4 * \<bar>t\<bar> / 9007199254740992 < 1 / (2 * of_int H)"
  proof -
    have "4 * \<bar>t\<bar> / 9007199254740992
        = (8 * (\<bar>of_int h\<bar> * of_int W) / 9007199254740992) / (2 * of_int H)"
      using H by (simp add: tabs field_simps)
    also have "\<dots> < 1 / (2 * of_int H)"
      using H w53 by (intro divide_strict_right_mono) simp_all
    finally show ?thesis .
  qed
  with e3 have "\<bar>s - of_int (h * W) / of_int H\<bar> < 1 / (2 * of_int H)"
    by (simp add: t_eq)
  from nearest_of_close [OF H this] show ?thesis
    by (simp add: math_round_def s_def y_def ar_def R_def)
qed

lemma selectFile_aspectRatio:
  "i < length (files st) \<Longrightarrow>
     aspectRatio (selectFile (int i) st)
       = fl (of_int (naturalWidth (files st ! i)) / of_int (naturalHeight (files st ! i)))
     \<and> activeIndex (selectFile (int i) st) = i
     \<and> aspectLocked (selectFile (int i) st) = aspectLocked st"
  by (simp add: selectFile_def showResults_def Let_def split: option.splits)

text \<open>The edits of the two fields leave the stored ratio, the items and the selection alone.\<close>

lemma edit_keeps_ratio:
  "aspectRatio (onWidthInput v st) = aspectRatio st"
  "aspectRatio (onHeightInput v st) = aspectRatio st"
  "files (onWidthInput v st) = files st"
  "files (onHeightInput v st) = files st"
  "activeIndex (onWidthInput v st) = activeIndex st"
  "activeIndex (onHeightInput v st) = activeIndex st"
  by (simp_all add: onWidthInput_def onHeightInput_def Let_def split: number.splits)

text \<open>
  C4, as the code has it. Let the aspect ratio held by the state be the one of the active
  item, of width \<open>W\<close> and height \<open>H\<close> (\<^verbatim>\<open>selectFile\<close> sets it so), let the lock be on and let
  the edited field parse to the integer \<open>k\<close> (with \<open>|k| * H\<close> and \<open>|k| * W\<close> below \<open>2^50\<close>).
  Editing the width sets the height field to an integer nearest to \<open>k * H / W\<close>, and editing
  the height sets the width field to an integer nearest to \<open>k * W / H\<close>: the distance is at
  most one half. The edited field keeps the text typed, so one edit recomputes the opposite
  dimension only. The quotient is computed in double precision from the stored ratio, so
  when \<open>k * H / W\<close> lies half-way between two integers either of them may result.
\<close>

theorem aspect_lock_nearest:
  assumes "aspectLocked st"
    and "aspectRatio st
           = fl (of_int (naturalWidth (files st ! activeIndex st))
                 / of_int (naturalHeight (files st ! activeIndex st)))"
    and "naturalWidth (files st ! activeIndex st) = W" "0 < W"
    and "naturalHeight (files st ! activeIndex st) = H" "0 < H"
    and "v \<noteq> []" "parseInt v = Num (of_int k)"
    and "\<bar>k\<bar> * H < 2 ^ 50" "\<bar>k\<bar> * W < 2 ^ 50"
  shows "(\<exists>n. heightInput (onWidthInput v st) = toString (Num (of_int n))
            \<and> \<bar>of_int n - of_int (k * H) / of_int W\<bar> \<le> (1 / 2 :: rat))
         \<and> widthInput (onWidthInput v st) = v
         \<and> (\<exists>m. widthInput (onHeightInput v st) = toString (Num (of_int m))
            \<and> \<bar>of_int m - of_int (k * W) / of_int H\<bar> \<le> (1 / 2 :: rat))
         \<and> heightInput (onHeightInput v st) = v"
proof (intro conjI)
  have ratio: "aspectRatio st = fl (of_int W / of_int H)"
    using assms(2,3,5) by simp
  let ?n = "math_round (fl (of_int k / fl (of_int W / of_int H)))"
  have "heightInput (onWidthInput v st) = toString (Num (of_int ?n))"
    using assms(1,7,8) ratio by (simp add: onWidthInput_def Let_def)
  with divide_by_ratio_close [OF assms(4,6,9)]
  show "\<exists>n. heightInput (onWidthInput v st) = toString (Num (of_int n))
            \<and> \<bar>of_int n - of_int (k * H) / of_int W\<bar> \<le> (1 / 2 :: rat)"
    by blast
  show "widthInput (onWidthInput v st) = v"
    by (simp add: onWidthInput_def Let_def split: number.splits)
  let ?m = "math_round (fl (of_int k * fl (of_int W / of_int H)))"
  have "widthInput (onHeightInput v st) = toString (Num (of_int ?m))"
    using assms(1,7,8) ratio by (simp add: onHeightInput_def Let_def)
  with times_ratio_close [OF assms(4,6,10)]
  show "\<exists>m. widthInput (onHeightInput v st) = toString (Num (of_int m))
            \<and> \<bar>of_int m - of_int (k * W) / of_int H\<bar> \<le> (1 / 2 :: rat)"
    by blast
  show "heightInput (onHeightInput v st) = v"
    by (simp add: onHeightInput_def Let_def split: number.splits)
qed

lemma loaded_800_600:
  "aspectLocked (loaded 800 600)"
  "activeIndex (loaded 800 600) = 0"
  "naturalWidth (files (loaded 800 600) ! 0) = 800"
  "naturalHeight (files (loaded 800 600) ! 0) = 600"
  "aspectRatio (loaded 800 600) = fl (of_int 800 / of_int 600)"
  "parseInt ''400'' = Num (of_int 400)"
  "heightInput (onWidthInput ''400'' (loaded 800 600)) = ''300''"
  "widthInput (onHeightInput ''400'' (loaded 800 600)) = ''533''"
  unfolding loaded_800_600_eq by code_simp+

theorem aspect_lock_nearest_witness:
  "aspectLocked (loaded 800 600)
   \<and> aspectRatio (loaded 800 600)
       = fl (of_int (naturalWidth (files (loaded 800 600) ! activeIndex (loaded 800 600)))
             / of_int (naturalHeight (files (loaded 800 600) ! activeIndex (loaded 800 600))))
   \<and> naturalWidth (files (loaded 800 600) ! activeIndex (loaded 800 600)) = 800
   \<and> naturalHeight (files (loaded 800 600) ! activeIndex (loaded 800 600)) = 600
   \<and> ''400'' \<noteq> [] \<and> parseInt ''400'' = Num (of_int 400)
   \<and> \<bar>400\<bar> * 600 < (2 ^ 50 :: int) \<and> \<bar>400\<bar> * 800 < (2 ^ 50 :: int)
   \<and> (\<exists>n. heightInput (onWidthInput ''400'' (loaded 800 600)) = toString (Num (of_int n))
        \<and> \<bar>of_int n - of_int (400 * 600) / of_int 800\<bar> \<le> (1 / 2 :: rat))
   \<and> widthInput (onWidthInput ''400'' (loaded 800 600)) = ''400''
   \<and> (\<exists>m. widthInput (onHeightInput ''400'' (loaded 800 600)) = toString (Num (of_int m))
        \<and> \<bar>of_int m - of_int (400 * 800) / of_int 600\<bar> \<le> (1 / 2 :: rat))
   \<and> heightInput (onHeightInput ''400'' (loaded 800 600)) = ''400''"
proof -
  have h2: "aspectRatio (loaded 800 600)
       = fl (of_int (naturalWidth (files (loaded 800 600) ! activeIndex (loaded 800 600)))
             / of_int (naturalHeight (files (loaded 800 600) ! activeIndex (loaded 800 600))))"
    by (simp add: loaded_800_600)
  have h3: "naturalWidth (files (loaded 800 600) ! activeIndex (loaded 800 600)) = 800"
    and h5: "naturalHeight (files (loaded 800 600) ! activeIndex (loaded 800 600)) = 600"
    by (simp_all add: loaded_800_600)
  have h7: "''400'' \<noteq> []" by simp
  have h9: "\<bar>400\<bar> * 600 < (2 ^ 50 :: int)" and h10: "\<bar>400\<bar> * 800 < (2 ^ 50 :: int)"
    by simp_all
  have w: "(0::int) < 800" and h: "(0::int) < 600" by simp_all
  from aspect_lock_nearest [OF loaded_800_600(1) h2 h3 w h5 h h7 loaded_800_600(6) h9 h10]
  show ?thesis
    using loaded_800_600(1,6) h2 h3 h5 by simp
qed

text \<open>
  The counterexample to C4 as stated. For an image 2 wide and 75 high, width 13 gives
  \<open>13 * 75 / 2 = 487.5\<close>; for an image 2 wide and 1 high, width 975 gives \<open>975 * 1 / 2\<close>, the same
  number. The height field becomes 487 in the first case and 488 in the second, so it is
  not a function of \<open>w' * H / W\<close>; \<^verbatim>\<open>Math.round\<close> of 487.5 is 488.
\<close>

theorem aspect_lock_tie_counterexample:
  "heightInput (onWidthInput ''13'' (loaded 2 75)) = ''487''
   \<and> heightInput (onWidthInput ''975'' (loaded 2 1)) = ''488''
   \<and> (of_int (13 * 75) / of_int 2 :: rat) = of_int (975 * 1) / of_int 2
   \<and> math_round (of_int (13 * 75) / of_int 2) = 488"
  unfolding loaded_2_75_eq loaded_2_1_eq by code_simp

text \<open>
  The assumption on the stored ratio is what \<^verbatim>\<open>selectFile\<close> establishes. It can be missing:
  when a file of a submission fails to decode, \<^verbatim>\<open>handleFiles\<close> calls \<^verbatim>\<open>selectFile\<close> with an
  index that is too small by the number of failures. On a fresh page with two files of
  which the first fails, the index is \<open>-1\<close> and nothing is selected: the image of 800 by
  600 is the current one, the ratio is still 1, and width 400 gives height 400.
\<close>

lemma partial_load_keeps_ratio:
  "activeIndex (handleFiles (decodeExcept ''a.png'') [fileA, fileB] initialState) = 0"
  "map naturalWidth (files (handleFiles (decodeExcept ''a.png'') [fileA, fileB] initialState))
     = [800]"
  "map naturalHeight (files (handleFiles (decodeExcept ''a.png'') [fileA, fileB] initialState))
     = [600]"
  "aspectRatio (handleFiles (decodeExcept ''a.png'') [fileA, fileB] initialState) = 1"
  "heightInput
     (onWidthInput ''400'' (handleFiles (decodeExcept ''a.png'') [fileA, fileB] initialState))
     = ''400''"
  by code_simp+

section \<open>Reading the dimension fields\<close>

lemma dot_not_digit [simp]: "\<not> isDigit R (CHR ''.'')"
  by (simp add: isDigit_def digitValue_def)

lemma dot_not_space [simp]: "\<not> isWhiteSpace (CHR ''.'')"
  by (simp add: isWhiteSpace_def)

lemma takeWhile_stop: "\<not> P y \<Longrightarrow> takeWhile P (xs @ y # ys) = takeWhile P xs"
  by (induction xs) auto

lemma take2_append_dot:
  "a \<noteq> CHR ''.'' \<Longrightarrow> b \<noteq> CHR ''.'' \<Longrightarrow>
     (take 2 (S @ CHR ''.'' # t) = [a, b]) = (take 2 S = [a, b])"
  by (cases S; cases "tl S") auto

lemma drop2_append: "take 2 S = [a, b] \<Longrightarrow> drop 2 (S @ r) = drop 2 S @ r"
  by (cases S; cases "tl S") auto

lemma parseInt_fraction: "parseInt (s @ ''.'' @ t) = parseInt s"
proof -
  define S where "S = dropWhile isWhiteSpace s"
  have D: "dropWhile isWhiteSpace (s @ ''.'' @ t) = S @ ''.'' @ t"
    by (simp add: S_def dropWhile_append3)
  define S1 where "S1 = (if S \<noteq> [] \<and> (hd S = CHR ''+'' \<or> hd S = CHR ''-'') then tl S else S)"
  have sign: "(S @ ''.'' @ t \<noteq> [] \<and> hd (S @ ''.'' @ t) = CHR ''-'') = (S \<noteq> [] \<and> hd S = CHR ''-'')"
    by (cases S) auto
  have S1': "(if S @ ''.'' @ t \<noteq> [] \<and> (hd (S @ ''.'' @ t) = CHR ''+'' \<or> hd (S @ ''.'' @ t) = CHR ''-'')
               then tl (S @ ''.'' @ t) else S @ ''.'' @ t) = S1 @ ''.'' @ t"
    by (cases S) (auto simp: S1_def)
  have dot: "''.'' @ t = CHR ''.'' # t" by simp
  have hx1: "(take 2 (S1 @ CHR ''.'' # t) = ''0x'') = (take 2 S1 = ''0x'')"
    by (rule take2_append_dot) simp_all
  have hx2: "(take 2 (S1 @ CHR ''.'' # t) = ''0X'') = (take 2 S1 = ''0X'')"
    by (rule take2_append_dot) simp_all
  have hex: "(take 2 (S1 @ ''.'' @ t) = ''0x'' \<or> take 2 (S1 @ ''.'' @ t) = ''0X'')
               = (take 2 S1 = ''0x'' \<or> take 2 S1 = ''0X'')"
    by (simp only: dot hx1 hx2)
  define hx where "hx = (take 2 S1 = ''0x'' \<or> take 2 S1 = ''0X'')"
  have S2: "(if hx then drop 2 (S1 @ ''.'' @ t) else S1 @ ''.'' @ t)
             = (if hx then drop 2 S1 else S1) @ ''.'' @ t"
  proof (cases hx)
    case True
    then obtain a b where "take 2 S1 = [a, b]" by (auto simp: hx_def)
    from drop2_append [OF this, of "''.'' @ t"] True show ?thesis by (simp only: if_True)
  next
    case False
    then show ?thesis by (simp only: if_False)
  qed
  show ?thesis
    unfolding parseInt_def Let_def D sign S1' hex
    unfolding S_def [symmetric] S1_def [symmetric] hx_def [symmetric] S2
    by (simp add: takeWhile_stop)
qed

lemma isDigit_10: "isDigit 10 c \<longleftrightarrow> 48 \<le> (of_char c :: int) \<and> (of_char c :: int) \<le> 57"
  by (auto simp: isDigit_def digitValue_def Let_def)

lemma digit_not_space: "isDigit 10 c \<Longrightarrow> \<not> isWhiteSpace c"
  by (auto simp: isDigit_10 isWhiteSpace_def)

lemma digit_not_special:
  "isDigit 10 c \<Longrightarrow> c \<noteq> CHR ''+'' \<and> c \<noteq> CHR ''-'' \<and> c \<noteq> CHR ''x'' \<and> c \<noteq> CHR ''X''"
  by (auto simp: isDigit_10)

lemma parseInt_digits:
  assumes ne: "ds \<noteq> []" and dig: "\<forall>c\<in>set ds. isDigit 10 c" and small: "mathInt 10 ds < 2 ^ 53"
    and nonneg: "0 \<le> mathInt 10 ds"
  shows "parseInt ds = Num (of_int (mathInt 10 ds))"
proof -
  obtain c r where ds: "ds = c # r" using ne by (cases ds) auto
  with dig have c: "isDigit 10 c" by simp
  have drop: "dropWhile isWhiteSpace ds = ds"
    using digit_not_space [OF c] by (simp add: ds)
  have nosign: "c \<noteq> CHR ''+''" "c \<noteq> CHR ''-''"
    using digit_not_special [OF c] by simp_all
  have nohex: "take 2 ds \<noteq> ''0x''" "take 2 ds \<noteq> ''0X''"
  proof -
    show "take 2 ds \<noteq> ''0x''"
    proof
      assume "take 2 ds = ''0x''"
      then obtain r' where "ds = CHR ''0'' # CHR ''x'' # r'"
        by (cases ds; cases "tl ds") auto
      with dig have "isDigit 10 (CHR ''x'')" by simp
      with digit_not_special show False by blast
    qed
    show "take 2 ds \<noteq> ''0X''"
    proof
      assume "take 2 ds = ''0X''"
      then obtain r' where "ds = CHR ''0'' # CHR ''X'' # r'"
        by (cases ds; cases "tl ds") auto
      with dig have "isDigit 10 (CHR ''X'')" by simp
      with digit_not_special show False by blast
    qed
  qed
  have tw: "takeWhile (isDigit 10) ds = ds"
    using dig by (simp add: takeWhile_eq_all_conv)
  have "\<bar>mathInt 10 ds\<bar> < 2 ^ 53" using small nonneg by simp
  then have flv: "fl (of_int (mathInt 10 ds)) = of_int (mathInt 10 ds)"
    by (rule fl_of_int)
  have sg: "(ds \<noteq> [] \<and> hd ds = CHR ''-'') = False"
    using nosign by (simp add: ds)
  have S1: "(if ds \<noteq> [] \<and> (hd ds = CHR ''+'' \<or> hd ds = CHR ''-'') then tl ds else ds) = ds"
    using nosign by (simp add: ds)
  have hx: "(take 2 ds = ''0x'' \<or> take 2 ds = ''0X'') = False"
    using nohex by simp
  have "parseInt ds = (if ds = [] then NaN else Num (fl (of_int (1 * mathInt 10 ds))))"
    unfolding parseInt_def Let_def
    by (simp only: drop sg S1 hx if_False tw)
  with flv ne show ?thesis by simp
qed

section \<open>Validation of the target dimensions\<close>

lemma mathInt_fold_nonneg:
  "0 \<le> a \<Longrightarrow> \<forall>c\<in>set ds. isDigit 10 c \<Longrightarrow>
     0 \<le> foldl (\<lambda>a c. a * 10 + (case digitValue c of None \<Rightarrow> 0 | Some d \<Rightarrow> d)) a ds"
proof (induction ds arbitrary: a)
  case Nil
  then show ?case by simp
next
  case (Cons c ds)
  from Cons.prems(2) have "isDigit 10 c" by simp
  then have "0 \<le> (case digitValue c of None \<Rightarrow> 0 | Some d \<Rightarrow> d)"
    by (auto simp: isDigit_def digitValue_def Let_def split: option.splits if_splits)
  with Cons.prems(1) have "0 \<le> a * 10 + (case digitValue c of None \<Rightarrow> 0 | Some d \<Rightarrow> d)"
    by simp
  from Cons.IH [OF this] Cons.prems(2) show ?case by simp
qed

lemma mathInt_nonneg: "\<forall>c\<in>set ds. isDigit 10 c \<Longrightarrow> 0 \<le> mathInt 10 ds"
  unfolding mathInt_def by (rule mathInt_fold_nonneg) simp_all

lemma valid_Num:
  "1 \<le> n \<Longrightarrow> 1 \<le> m \<Longrightarrow> \<not> invalidDimensions (Num (of_int n)) (Num (of_int m))"
  "n \<le> 10000 \<Longrightarrow> \<not> gt (Num (of_int n)) 10000"
  "10000 < n \<Longrightarrow> gt (Num (of_int n)) 10000"
  by (simp_all add: invalidDimensions_def)

text \<open>
  What \<^verbatim>\<open>resizeCurrent\<close> does with dimensions it does not accept: a missing value (no
  digits), a value below 1 or a value above 10000 in either field gives one error toast
  and nothing else; 10000 by 10000 passes both tests.
\<close>

lemma resizeCurrent_rejects:
  assumes "activeIndex st < length (files st)"
    and "invalidDimensions (parseInt (widthInput st)) (parseInt (heightInput st))
         \<or> gt (parseInt (widthInput st)) 10000 \<or> gt (parseInt (heightInput st)) 10000"
  shows "resizeCurrent env st = showToast ''Please enter valid dimensions'' ''error'' st
         \<or> resizeCurrent env st = showToast ''Maximum dimension is 10,000px'' ''error'' st"
  using assms by (auto simp: resizeCurrent_def Let_def)

lemma boundary_10000:
  "parseInt ''10000'' = Num 10000"
  "\<not> invalidDimensions (Num 10000) (Num 10000)"
  "\<not> gt (Num 10000) 10000"
  "parseInt ''10001'' = Num 10001"
  "gt (Num 10001) 10000"
  "invalidDimensions (parseInt '''') (Num 10)"
  "invalidDimensions (parseInt ''0'') (Num 10)"
  "invalidDimensions (parseInt ''-5'') (Num 10)"
  by code_simp+

text \<open>
  C2 at a failing input. Three images of 800 by 600 are loaded and 10001 is typed as the
  width (the lock makes the height 7501). \<^verbatim>\<open>resizeCurrent\<close> refuses with the message
  about the maximum; \<^verbatim>\<open>resizeAll\<close>, which has the first test only, resizes all three
  images to 10001 by 7501.
\<close>

theorem resizeAll_accepts_10001:
  "widthInput typed10001 = ''10001''
   \<and> heightInput typed10001 = ''7501''
   \<and> toasts (resizeCurrent okBrowser typed10001)
       = [(''3 images loaded'', ''success''), (''Maximum dimension is 10,000px'', ''error'')]
   \<and> toasts (resizeAll okBrowser typed10001)
       = [(''3 images loaded'', ''success''), (''All 3 images resized!'', ''success'')]
   \<and> map resizedBlob (files (resizeAll okBrowser typed10001))
       = [Some \<lparr>blob_size = 10001 * 7501, blob_type = ''image/jpeg''\<rparr>,
          Some \<lparr>blob_size = 10001 * 7501, blob_type = ''image/jpeg''\<rparr>,
          Some \<lparr>blob_size = 10001 * 7501, blob_type = ''image/jpeg''\<rparr>]"
  by code_simp

section \<open>Fractional input\<close>

text \<open>
  C10. \<^verbatim>\<open>parseInt\<close> stops at the decimal point: whatever follows it is ignored. So when
  the width field holds decimal digits with value \<open>n\<close> followed by a fractional part, and
  \<open>n\<close> and the height are within 1 and 10000, \<^verbatim>\<open>resizeCurrent\<close> and \<^verbatim>\<open>resizeAll\<close> pass the
  validation and run with target width \<open>n\<close>.
\<close>

theorem fractional_width_truncated:
  assumes "widthInput st = ds @ ''.'' @ rest"
    and "ds \<noteq> []" and "\<forall>c\<in>set ds. isDigit 10 c"
    and "n = mathInt 10 ds" and "1 \<le> n" and "n \<le> 10000"
    and "parseInt (heightInput st) = Num (of_int m)" and "1 \<le> m" and "m \<le> 10000"
    and "activeIndex st < length (files st)"
  shows "parseInt (s @ ''.'' @ t) = parseInt s
     \<and> parseInt (widthInput st) = Num (of_int n)
     \<and> resizeCurrent env st
         = (case resizeImage env (activeIndex st) (Num (of_int n)) (Num (of_int m)) st of
              (None, st1) \<Rightarrow>
                showToast ''Image resized successfully!'' ''success''
                  (showResults (files st1 ! activeIndex st) st1)
            | (Some err, st1) \<Rightarrow> showToast (''Error resizing image: '' @ snd err) ''error'' st1)
     \<and> resizeAll env st
         = (case resizeLoop env (Num (of_int n)) (Num (of_int m)) 0 0 st of
              (None, completed, st1) \<Rightarrow>
                showToast (''All '' @ toString (Num (of_int completed)) @ '' images resized!'')
                  ''success'' (selectFile (int (activeIndex st1)) st1)
            | (Some err, completed, st1) \<Rightarrow>
                showToast (''Error during batch resize: '' @ snd err) ''error'' st1)"
proof -
  have "mathInt 10 ds < 2 ^ 53" using assms(4,6) by simp
  moreover have "0 \<le> mathInt 10 ds" using assms(3) by (rule mathInt_nonneg)
  ultimately have "parseInt ds = Num (of_int (mathInt 10 ds))"
    using assms(2,3) by (intro parseInt_digits)
  then have w: "parseInt (widthInput st) = Num (of_int n)"
    using assms(1,4) by (simp only: parseInt_fraction)
  note ok = valid_Num(1) [OF assms(5,8)] valid_Num(2) [OF assms(6)] valid_Num(2) [OF assms(9)]
  have "resizeCurrent env st
         = (case resizeImage env (activeIndex st) (Num (of_int n)) (Num (of_int m)) st of
              (None, st1) \<Rightarrow>
                showToast ''Image resized successfully!'' ''success''
                  (showResults (files st1 ! activeIndex st) st1)
            | (Some err, st1) \<Rightarrow> showToast (''Error resizing image: '' @ snd err) ''error'' st1)"
    using ok assms(10) by (simp add: resizeCurrent_def Let_def w assms(7))
  moreover have "resizeAll env st
         = (case resizeLoop env (Num (of_int n)) (Num (of_int m)) 0 0 st of
              (None, completed, st1) \<Rightarrow>
                showToast (''All '' @ toString (Num (of_int completed)) @ '' images resized!'')
                  ''success'' (selectFile (int (activeIndex st1)) st1)
            | (Some err, completed, st1) \<Rightarrow>
                showToast (''Error during batch resize: '' @ snd err) ''error'' st1)"
    using ok by (simp add: resizeAll_def Let_def w assms(7))
  ultimately show ?thesis
    using w parseInt_fraction by blast
qed

lemma fractional_example:
  "widthInput typedFraction = ''100'' @ ''.'' @ ''9''"
  "\<forall>c\<in>set ''100''. isDigit 10 c"
  "100 = mathInt 10 ''100''"
  "parseInt (heightInput typedFraction) = Num (of_int 75)"
  "activeIndex typedFraction < length (files typedFraction)"
  "map resizedBlob (files (resizeCurrent okBrowser typedFraction))
     = [Some \<lparr>blob_size = 100 * 75, blob_type = ''image/jpeg''\<rparr>, None, None]"
  "map resizedBlob (files (resizeAll okBrowser typedFraction))
     = [Some \<lparr>blob_size = 100 * 75, blob_type = ''image/jpeg''\<rparr>,
        Some \<lparr>blob_size = 100 * 75, blob_type = ''image/jpeg''\<rparr>,
        Some \<lparr>blob_size = 100 * 75, blob_type = ''image/jpeg''\<rparr>]"
  by code_simp+

theorem fractional_width_truncated_witness:
  "widthInput typedFraction = ''100'' @ ''.'' @ ''9''
   \<and> ''100'' \<noteq> [] \<and> list_all (isDigit 10) ''100''
   \<and> 100 = mathInt 10 ''100'' \<and> (1::int) \<le> 100 \<and> (100::int) \<le> 10000
   \<and> parseInt (heightInput typedFraction) = Num (of_int 75)
   \<and> (1::int) \<le> 75 \<and> (75::int) \<le> 10000
   \<and> activeIndex typedFraction < length (files typedFraction)
   \<and> parseInt (''100'' @ ''.'' @ ''9'') = parseInt ''100''
   \<and> parseInt (widthInput typedFraction) = Num (of_int 100)
   \<and> resizeCurrent okBrowser typedFraction
       = (case resizeImage okBrowser (activeIndex typedFraction)
                 (Num (of_int 100)) (Num (of_int 75)) typedFraction of
            (None, st1) \<Rightarrow>
              showToast ''Image resized successfully!'' ''success''
                (showResults (files st1 ! activeIndex typedFraction) st1)
          | (Some err, st1) \<Rightarrow> showToast (''Error resizing image: '' @ snd err) ''error'' st1)
   \<and> resizeAll okBrowser typedFraction
       = (case resizeLoop okBrowser (Num (of_int 100)) (Num (of_int 75)) 0 0
                 typedFraction of
            (None, completed, st1) \<Rightarrow>
              showToast (''All '' @ toString (Num (of_int completed)) @ '' images resized!'')
                ''success'' (selectFile (int (activeIndex st1)) st1)
          | (Some err, completed, st1) \<Rightarrow>
              showToast (''Error during batch resize: '' @ snd err) ''error'' st1)"
proof -
  have h2: "''100'' \<noteq> []" by simp
  have h5: "(1::int) \<le> 100" and h6: "(100::int) \<le> 10000"
    and h8: "(1::int) \<le> 75" and h9: "(75::int) \<le> 10000"
    by simp_all
  note ex = fractional_example
  have digits: "list_all (isDigit 10) ''100''"
    using ex(2) by (simp only: list_all_iff)
  from fractional_width_truncated [OF ex(1) h2 ex(2) ex(3) h5 h6 ex(4) h8 h9 ex(5),
      of "''100''" "''9''" okBrowser]
  show ?thesis
    using ex(1) ex(3-5) digits h2 h5 h6 h8 h9 by blast
qed

section \<open>A failed resize of the current item\<close>

lemma pipeline_fails_iff:
  "(\<exists>err. pipeline env st it targetW targetH = Inl err) \<longleftrightarrow>
     \<not> imageLoads env (originalUrl it)
     \<or> (picaInstance env \<and> pica_resize env it targetW targetH \<noteq> None)
     \<or> (\<exists>m. canvasToBlob env it targetW targetH (outputFormat st) (quality st) = Inl m)"
  by (auto simp: pipeline_def split: option.splits sum.splits)

text \<open>
  When the source image does not load, or \<^verbatim>\<open>pica.resize\<close> rejects, or the encoder rejects
  (the fallback encoder also when it yields no blob), \<^verbatim>\<open>resizeCurrent\<close> ends with the state
  it started from plus one error toast.
\<close>

lemma resizeCurrent_rejection_keeps_state:
  assumes "activeIndex st < length (files st)"
    and "\<not> invalidDimensions (parseInt (widthInput st)) (parseInt (heightInput st))"
    and "\<not> gt (parseInt (widthInput st)) 10000" and "\<not> gt (parseInt (heightInput st)) 10000"
    and "\<not> imageLoads env (originalUrl (files st ! activeIndex st))
         \<or> (picaInstance env
             \<and> pica_resize env (files st ! activeIndex st)
                 (parseInt (widthInput st)) (parseInt (heightInput st)) \<noteq> None)
         \<or> (\<exists>m. canvasToBlob env (files st ! activeIndex st)
                 (parseInt (widthInput st)) (parseInt (heightInput st))
                 (outputFormat st) (quality st) = Inl m)"
  shows "(\<exists>m. resizeCurrent env st = showToast (''Error resizing image: '' @ m) ''error'' st)
         \<and> files (resizeCurrent env st) = files st
         \<and> objectUrls (resizeCurrent env st) = objectUrls st"
proof -
  from assms(5) obtain err where
    "pipeline env st (files st ! activeIndex st)
       (parseInt (widthInput st)) (parseInt (heightInput st)) = Inl err"
    using pipeline_fails_iff by blast
  then have "resizeCurrent env st = showToast (''Error resizing image: '' @ snd err) ''error'' st"
    using assms(1-4) by (simp add: resizeCurrent_def Let_def resizeImage_def)
  then show ?thesis
    by (auto simp: showToast_def)
qed

text \<open>
  C6 at a failing input. The first image has been resized to 100 by 75: it holds a blob of
  7500 bytes and the live URL 0. It is resized again, to JPEG, in a browser where the
  promise of \<^verbatim>\<open>pica.toBlob\<close> resolves with \<^verbatim>\<open>null\<close>; the Pica branch of \<^verbatim>\<open>canvasToBlob\<close> has no
  test for that, where the fallback branch rejects. \<^verbatim>\<open>resizeImage\<close> revokes URL 0, assigns
  \<^verbatim>\<open>null\<close> to \<^verbatim>\<open>resizedBlob\<close> and fails in \<^verbatim>\<open>URL.createObjectURL\<close>. The operation ends with an
  error toast, and the item has lost the artifact it had: it holds no blob, and a URL that
  is revoked.
\<close>

theorem resizeCurrent_null_blob_loses_artifact:
  "activeIndex resizedOnce = 0
   \<and> resizedBlob (files resizedOnce ! 0) = Some \<lparr>blob_size = 7500, blob_type = ''image/jpeg''\<rparr>
   \<and> resizedUrl (files resizedOnce ! 0) = Some 0
   \<and> objectUrls resizedOnce = {0}
   \<and> parseInt (widthInput resizedOnce) = Num 100
   \<and> parseInt (heightInput resizedOnce) = Num 75
   \<and> pipeline nullBlobBrowser resizedOnce (files resizedOnce ! 0) (Num 100) (Num 75) = Inr None
   \<and> toasts (resizeCurrent nullBlobBrowser resizedOnce)
       = toasts resizedOnce
         @ [(''Error resizing image: Overload resolution failed.'', ''error'')]
   \<and> resizedBlob (files (resizeCurrent nullBlobBrowser resizedOnce) ! 0) = None
   \<and> resizedUrl (files (resizeCurrent nullBlobBrowser resizedOnce) ! 0) = Some 0
   \<and> objectUrls (resizeCurrent nullBlobBrowser resizedOnce) = {}"
  by code_simp

section \<open>Replacing the resized artifact\<close>




lemma files_revokeOld [simp]: "files (revokeOld i st) = files st"
  by (simp add: revokeOld_def revokeObjectURL_def split: option.splits)

lemma nextUrl_revokeOld [simp]: "nextUrl (revokeOld i st) = nextUrl st"
  by (simp add: revokeOld_def revokeObjectURL_def split: option.splits)


lemma install_fields:
  "files (install i b st) = (files st)[i := (files st ! i)\<lparr>resizedBlob := Some b, resizedUrl := Some (nextUrl st)\<rparr>]"
  "objectUrls (install i b st) = insert (nextUrl st) (objectUrls st)"
  "nextUrl (install i b st) = Suc (nextUrl st)"
  "toasts (install i b st) = toasts st"
  "outputFormat (install i b st) = outputFormat st"
  "quality (install i b st) = quality st"
  by (simp_all add: install_def createObjectURL_def)





section \<open>Batch resize\<close>

text \<open>The pipeline reads the state only for the output format and the quality.\<close>

lemma pipeline_cong:
  "outputFormat s = outputFormat st \<Longrightarrow> quality s = quality st \<Longrightarrow>
     pipeline env s it targetW targetH = pipeline env st it targetW targetH"
  by (simp add: pipeline_def split: option.splits)

lemma revokeOld_fields [simp]:
  "toasts (revokeOld i st) = toasts st"
  "outputFormat (revokeOld i st) = outputFormat st"
  "quality (revokeOld i st) = quality st"
  by (simp_all add: revokeOld_def revokeObjectURL_def split: option.splits)

text \<open>
  The loop from index \<open>i\<close>, when the items from \<open>i\<close> up to \<open>k\<close> pass the pipeline and a
  stage rejects for item \<open>k\<close>: it ends at \<open>k\<close> with that error, having counted \<open>k - i\<close>
  items. The items from \<open>i\<close> up to \<open>k\<close> hold the blob the pipeline made for them and the
  URLs handed out in order; the other items are untouched.
\<close>

lemma resizeLoop_stops:
  assumes "k - i = n" and "i \<le> k" and "k < length (files s)"
    and "\<forall>j. i \<le> j \<and> j < k \<longrightarrow>
           (\<exists>b. pipeline env s (files s ! j) targetW targetH = Inr (Some b))"
    and "pipeline env s (files s ! k) targetW targetH = Inl err"
  shows "\<exists>s'. resizeLoop env targetW targetH i c s = (Some err, c + int (k - i), s')
      \<and> length (files s') = length (files s)
      \<and> (\<forall>j. j < i \<or> k \<le> j \<longrightarrow> files s' ! j = files s ! j)
      \<and> (\<forall>j b. i \<le> j \<and> j < k \<and> pipeline env s (files s ! j) targetW targetH = Inr (Some b)
            \<longrightarrow> files s' ! j
                = (files s ! j)\<lparr>resizedBlob := Some b, resizedUrl := Some (nextUrl s + (j - i))\<rparr>)
      \<and> toasts s' = toasts s"
  using assms
proof (induction n arbitrary: i c s)
  case 0
  then have ik: "i = k" by simp
  from "0.prems"(3,5) have r: "resizeLoop env targetW targetH k c s = (Some err, c, s)"
    unfolding ik by (subst resizeLoop.simps) (simp add: resizeImage_def)
  show ?case unfolding ik by (intro exI [of _ s]) (auto simp: r)
next
  case (Suc n)
  then have lt: "i < k" by simp
  with Suc.prems(4) obtain b where b: "pipeline env s (files s ! i) targetW targetH = Inr (Some b)"
    by blast
  define s1 where "s1 = install i b (revokeOld i s)"
  have il: "i < length (files s)" using lt Suc.prems(3) by simp
  have run: "resizeImage env i targetW targetH s = (None, s1)"
    by (simp add: resizeImage_def b s1_def)
  have f1: "files s1 = (files s)[i := (files s ! i)\<lparr>resizedBlob := Some b, resizedUrl := Some (nextUrl s)\<rparr>]"
    by (simp add: s1_def install_fields)
  have n1: "nextUrl s1 = Suc (nextUrl s)"
    by (simp add: s1_def install_fields)
  have other: "files s1 ! j = files s ! j" if "j \<noteq> i" for j
    using that by (simp add: f1)
  have same: "pipeline env s1 it targetW targetH = pipeline env s it targetW targetH" for it
    by (rule pipeline_cong) (simp_all add: s1_def install_fields)
  have len1: "length (files s1) = length (files s)" by (simp add: f1)
  have p1: "k - Suc i = n" using Suc.prems(1) by simp
  have p2: "Suc i \<le> k" using lt by simp
  have p3: "k < length (files s1)" using Suc.prems(3) len1 by simp
  have p4: "\<forall>j. Suc i \<le> j \<and> j < k \<longrightarrow>
      (\<exists>b. pipeline env s1 (files s1 ! j) targetW targetH = Inr (Some b))"
    using Suc.prems(4) by (auto simp: same other)
  have p5: "pipeline env s1 (files s1 ! k) targetW targetH = Inl err"
    using Suc.prems(5) lt by (simp add: same other)
  from Suc.IH [OF p1 p2 p3 p4 p5, of "c + 1"]
  obtain s' where loop: "resizeLoop env targetW targetH (Suc i) (c + 1) s1
        = (Some err, c + 1 + int (k - Suc i), s')"
    and len: "length (files s') = length (files s1)"
    and keep: "\<forall>j. j < Suc i \<or> k \<le> j \<longrightarrow> files s' ! j = files s1 ! j"
    and made: "\<forall>j b. Suc i \<le> j \<and> j < k
          \<and> pipeline env s1 (files s1 ! j) targetW targetH = Inr (Some b)
        \<longrightarrow> files s' ! j
            = (files s1 ! j)\<lparr>resizedBlob := Some b, resizedUrl := Some (nextUrl s1 + (j - Suc i))\<rparr>"
    and toasts': "toasts s' = toasts s1"
    by blast
  have r: "resizeLoop env targetW targetH i c s = (Some err, c + int (k - i), s')"
  proof -
    have "resizeLoop env targetW targetH i c s
        = resizeLoop env targetW targetH (i + 1) (c + 1) s1"
      using il by (subst resizeLoop.simps) (simp add: run)
    also have "\<dots> = (Some err, c + 1 + int (k - Suc i), s')"
      using loop by simp
    also have "c + 1 + int (k - Suc i) = c + int (k - i)"
      using lt by simp
    finally show ?thesis .
  qed
  have k1: "\<forall>j. j < i \<or> k \<le> j \<longrightarrow> files s' ! j = files s ! j"
  proof (intro allI impI)
    fix j assume j: "j < i \<or> k \<le> j"
    then have "j \<noteq> i" using lt by auto
    moreover from j lt have "j < Suc i \<or> k \<le> j" by auto
    ultimately show "files s' ! j = files s ! j"
      using keep other by metis
  qed
  have k2: "\<forall>j b'. i \<le> j \<and> j < k \<and> pipeline env s (files s ! j) targetW targetH = Inr (Some b')
      \<longrightarrow> files s' ! j
          = (files s ! j)\<lparr>resizedBlob := Some b', resizedUrl := Some (nextUrl s + (j - i))\<rparr>"
  proof (intro allI impI)
    fix j b'
    assume j: "i \<le> j \<and> j < k \<and> pipeline env s (files s ! j) targetW targetH = Inr (Some b')"
    show "files s' ! j
        = (files s ! j)\<lparr>resizedBlob := Some b', resizedUrl := Some (nextUrl s + (j - i))\<rparr>"
    proof (cases "j = i")
      case True
      with j b have "b' = b" by simp
      moreover have "files s' ! i = files s1 ! i" using keep by simp
      ultimately show ?thesis using il True by (simp add: f1)
    next
      case False
      with j have range: "Suc i \<le> j \<and> j < k" by simp
      have "pipeline env s1 (files s1 ! j) targetW targetH = Inr (Some b')"
        using j False by (simp add: same other)
      with made range have "files s' ! j
          = (files s1 ! j)\<lparr>resizedBlob := Some b', resizedUrl := Some (nextUrl s1 + (j - Suc i))\<rparr>"
        by blast
      moreover have "nextUrl s1 + (j - Suc i) = nextUrl s + (j - i)"
        unfolding n1 using range by arith
      ultimately show ?thesis using False by (simp add: other)
    qed
  qed
  have k3: "toasts s' = toasts s"
    using toasts' by (simp add: s1_def install_fields)
  show ?case
    using r len len1 k1 k2 k3 by (intro exI [of _ s']) simp
qed

text \<open>
  C1, as the code has it. Let the dimensions pass the validation of \<^verbatim>\<open>resizeAll\<close>, let
  the pipeline succeed for the items before item \<open>k\<close>, and let a stage of item \<open>k\<close> reject
  (the image does not load, \<^verbatim>\<open>pica.resize\<close> or the encoder rejects). Then the batch ends at
  item \<open>k\<close>: the only report is one error toast with the message of that failure (no
  count of successes); every item before \<open>k\<close> holds the blob its pipeline made and the
  URL created for it, in place of what it held before; item \<open>k\<close> and every item after it
  are as they were, so the later items are not attempted.
\<close>

theorem resizeAll_stops_at_failure:
  assumes "\<not> invalidDimensions (parseInt (widthInput st)) (parseInt (heightInput st))"
    and "k < length (files st)"
    and "\<forall>j<k. \<exists>b. pipeline env st (files st ! j)
                  (parseInt (widthInput st)) (parseInt (heightInput st)) = Inr (Some b)"
    and "pipeline env st (files st ! k)
           (parseInt (widthInput st)) (parseInt (heightInput st)) = Inl err"
  shows "toasts (resizeAll env st)
           = toasts st @ [(''Error during batch resize: '' @ snd err, ''error'')]
     \<and> length (files (resizeAll env st)) = length (files st)
     \<and> (\<forall>j b. j < k \<and> pipeline env st (files st ! j)
                  (parseInt (widthInput st)) (parseInt (heightInput st)) = Inr (Some b)
          \<longrightarrow> files (resizeAll env st) ! j
              = (files st ! j)\<lparr>resizedBlob := Some b, resizedUrl := Some (nextUrl st + j)\<rparr>)
     \<and> (\<forall>j. k \<le> j \<longrightarrow> files (resizeAll env st) ! j = files st ! j)"
proof -
  define w where "w = parseInt (widthInput st)"
  define h where "h = parseInt (heightInput st)"
  have p4: "\<forall>j. 0 \<le> j \<and> j < k \<longrightarrow> (\<exists>b. pipeline env st (files st ! j) w h = Inr (Some b))"
    using assms(3) by (simp add: w_def h_def)
  have p5: "pipeline env st (files st ! k) w h = Inl err"
    using assms(4) by (simp add: w_def h_def)
  from resizeLoop_stops [OF refl _ assms(2) p4 p5, of 0]
  obtain s' where loop: "resizeLoop env w h 0 0 st = (Some err, 0 + int (k - 0), s')"
    and len: "length (files s') = length (files st)"
    and keep: "\<forall>j. j < 0 \<or> k \<le> j \<longrightarrow> files s' ! j = files st ! j"
    and made: "\<forall>j b. 0 \<le> j \<and> j < k \<and> pipeline env st (files st ! j) w h = Inr (Some b)
        \<longrightarrow> files s' ! j
            = (files st ! j)\<lparr>resizedBlob := Some b, resizedUrl := Some (nextUrl st + (j - 0))\<rparr>"
    and toasts': "toasts s' = toasts st"
    by auto
  have "resizeAll env st = showToast (''Error during batch resize: '' @ snd err) ''error'' s'"
    using assms(1) loop by (simp add: resizeAll_def Let_def w_def h_def)
  then show ?thesis
    using len keep made toasts' unfolding w_def h_def by simp
qed

text \<open>
  Three images, the first already resized to 100 by 75, with 200 by 150 as the target, in
  a browser where the second image does not load.
\<close>

lemma batch_failure_facts:
  "\<not> invalidDimensions (parseInt (widthInput typed200)) (parseInt (heightInput typed200))"
  "1 < length (files typed200)"
  "pipeline (failingOn ''data:b.png'') typed200 (files typed200 ! 0)
     (parseInt (widthInput typed200)) (parseInt (heightInput typed200))
     = Inr (Some \<lparr>blob_size = 30000, blob_type = ''image/jpeg''\<rparr>)"
  "pipeline (failingOn ''data:b.png'') typed200 (files typed200 ! 1)
     (parseInt (widthInput typed200)) (parseInt (heightInput typed200))
     = Inl (Decode, ''undefined'')"
  "toasts typed200 = [(''3 images loaded'', ''success''), (''Image resized successfully!'', ''success'')]"
  "length (files typed200) = 3"
  "nextUrl typed200 = 1"
  "resizedBlob (files typed200 ! 0) = Some \<lparr>blob_size = 7500, blob_type = ''image/jpeg''\<rparr>"
  "resizedUrl (files typed200 ! 0) = Some 0"
  by code_simp+

theorem resizeAll_stops_at_failure_witness:
  "\<not> invalidDimensions (parseInt (widthInput typed200)) (parseInt (heightInput typed200))
   \<and> 1 < length (files typed200)
   \<and> pipeline (failingOn ''data:b.png'') typed200 (files typed200 ! 0)
        (parseInt (widthInput typed200)) (parseInt (heightInput typed200))
        = Inr (Some \<lparr>blob_size = 30000, blob_type = ''image/jpeg''\<rparr>)
   \<and> pipeline (failingOn ''data:b.png'') typed200 (files typed200 ! 1)
        (parseInt (widthInput typed200)) (parseInt (heightInput typed200))
        = Inl (Decode, ''undefined'')
   \<and> resizedBlob (files typed200 ! 0) = Some \<lparr>blob_size = 7500, blob_type = ''image/jpeg''\<rparr>
   \<and> resizedUrl (files typed200 ! 0) = Some 0
   \<and> toasts (resizeAll (failingOn ''data:b.png'') typed200)
        = [(''3 images loaded'', ''success''), (''Image resized successfully!'', ''success''),
           (''Error during batch resize: undefined'', ''error'')]
   \<and> length (files (resizeAll (failingOn ''data:b.png'') typed200)) = 3
   \<and> files (resizeAll (failingOn ''data:b.png'') typed200) ! 0
        = (files typed200 ! 0)
            \<lparr>resizedBlob := Some \<lparr>blob_size = 30000, blob_type = ''image/jpeg''\<rparr>,
             resizedUrl := Some 1\<rparr>
   \<and> files (resizeAll (failingOn ''data:b.png'') typed200) ! 1 = files typed200 ! 1
   \<and> files (resizeAll (failingOn ''data:b.png'') typed200) ! 2 = files typed200 ! 2"
proof -
  note ex = batch_failure_facts
  have before: "\<forall>j<1. \<exists>b. pipeline (failingOn ''data:b.png'') typed200 (files typed200 ! j)
      (parseInt (widthInput typed200)) (parseInt (heightInput typed200)) = Inr (Some b)"
    using ex(3) by simp
  from resizeAll_stops_at_failure [OF ex(1) ex(2) before ex(4)]
  have r: "toasts (resizeAll (failingOn ''data:b.png'') typed200)
        = toasts typed200 @ [(''Error during batch resize: '' @ snd (Decode, ''undefined''), ''error'')]"
    "length (files (resizeAll (failingOn ''data:b.png'') typed200)) = length (files typed200)"
    "\<forall>j b. j < 1 \<and> pipeline (failingOn ''data:b.png'') typed200 (files typed200 ! j)
                  (parseInt (widthInput typed200)) (parseInt (heightInput typed200)) = Inr (Some b)
          \<longrightarrow> files (resizeAll (failingOn ''data:b.png'') typed200) ! j
              = (files typed200 ! j)\<lparr>resizedBlob := Some b, resizedUrl := Some (nextUrl typed200 + j)\<rparr>"
    "\<forall>j. 1 \<le> j \<longrightarrow> files (resizeAll (failingOn ''data:b.png'') typed200) ! j = files typed200 ! j"
    by blast+
  from r(3) ex(3) have first: "files (resizeAll (failingOn ''data:b.png'') typed200) ! 0
        = (files typed200 ! 0)
            \<lparr>resizedBlob := Some \<lparr>blob_size = 30000, blob_type = ''image/jpeg''\<rparr>,
             resizedUrl := Some (nextUrl typed200 + 0)\<rparr>"
    by blast
  show ?thesis
    using ex r(1,2,4) first by simp
qed

text \<open>
  In a batch of three with nothing resized yet, the second item is the only one whose
  pipeline fails; the third, whose pipeline would succeed, gets no artifact from
  \<^verbatim>\<open>resizeAll\<close>, and no count of two successes is reported.
\<close>

theorem resizeAll_abort_counterexample:
  "length (files typed100) = 3
   \<and> pipeline (failingOn ''data:b.png'') typed100 (files typed100 ! 0) (Num 100) (Num 75)
       = Inr (Some \<lparr>blob_size = 7500, blob_type = ''image/jpeg''\<rparr>)
   \<and> pipeline (failingOn ''data:b.png'') typed100 (files typed100 ! 1) (Num 100) (Num 75)
       = Inl (Decode, ''undefined'')
   \<and> pipeline (failingOn ''data:b.png'') typed100 (files typed100 ! 2) (Num 100) (Num 75)
       = Inr (Some \<lparr>blob_size = 7500, blob_type = ''image/jpeg''\<rparr>)
   \<and> parseInt (widthInput typed100) = Num 100
   \<and> parseInt (heightInput typed100) = Num 75
   \<and> map resizedBlob (files (resizeAll (failingOn ''data:b.png'') typed100))
       = [Some \<lparr>blob_size = 7500, blob_type = ''image/jpeg''\<rparr>, None, None]
   \<and> toasts (resizeAll (failingOn ''data:b.png'') typed100)
       = [(''3 images loaded'', ''success''),
          (''Error during batch resize: undefined'', ''error'')]"
  by code_simp

section \<open>Download names\<close>

text \<open>
  What the replacement of \<^verbatim>\<open>/\.[^.]+$/\<close> does to a name: a last dot followed by at least
  one character is cut off with what follows it; a name without a dot, or ending in
  a dot, stays as it is.
\<close>

lemma replaceExt_ext:
  "ext \<noteq> [] \<Longrightarrow> CHR ''.'' \<notin> set ext \<Longrightarrow> replaceExt (base @ ''.'' @ ext) = base"
  by (induction base) (simp_all add: matchesExt_def)

lemma replaceExt_no_dot: "CHR ''.'' \<notin> set s \<Longrightarrow> replaceExt s = s"
  by (induction s) (auto simp: matchesExt_def)

lemma replaceExt_trailing_dot: "s \<noteq> [] \<Longrightarrow> last s = CHR ''.'' \<Longrightarrow> replaceExt s = s"
proof (induction s)
  case Nil
  then show ?case by simp
next
  case (Cons c r)
  show ?case
  proof (cases "r = []")
    case True
    then show ?thesis by (simp add: matchesExt_def)
  next
    case False
    with Cons.prems have l: "last r = CHR ''.''" by simp
    with False have "CHR ''.'' \<in> set r" using last_in_set by metis
    then have "\<not> matchesExt (c # r)" by (simp add: matchesExt_def)
    then show ?thesis using Cons.IH [OF False l] by simp
  qed
qed

lemma toString_nonneg: "0 \<le> n \<Longrightarrow> toString (Num (of_int n)) = decimal n"
  by (simp add: toString_def)

text \<open>The downloads each of the two functions triggers.\<close>

lemma downloads_showToast [simp]: "downloads (showToast m t st) = downloads st"
  by (simp add: showToast_def)

lemma downloads_foldl:
  "downloads (foldl (\<lambda>s item. triggerDownload (resizedUrl item) (name item) s) st xs)
     = downloads st @ map (\<lambda>item. (resizedUrl item, name item)) xs"
  by (induction xs arbitrary: st) (simp_all add: triggerDownload_def)

lemma downloadAll_downloads:
  "downloads (downloadAll st)
     = downloads st @ map (\<lambda>item. (resizedUrl item, downloadName item st))
                        (filter (\<lambda>f. resizedBlob f \<noteq> None) (files st))"
  by (simp add: downloadAll_def Let_def downloads_foldl)

lemma downloadCurrent_downloads:
  "activeIndex st < length (files st) \<Longrightarrow> resizedBlob (files st ! activeIndex st) \<noteq> None \<Longrightarrow>
     downloads (downloadCurrent st)
       = downloads st @ [(resizedUrl (files st ! activeIndex st),
                          downloadName (files st ! activeIndex st) st)]"
  by (simp add: downloadCurrent_def Let_def triggerDownload_def)

text \<open>
  Both functions build the name from the two dimension fields and the selected extension
  as they are when the download is asked for. When the fields parse to the integers \<open>w\<close>
  and \<open>h\<close> (not negative, below \<open>10^21\<close>), the name of an item with a resized artifact is
  the base name, an underscore, \<open>w\<close>, the letter x, \<open>h\<close>, a dot and that extension, where
  the base name is the file name without its last extension (the whole name when it has
  none).
\<close>

lemma downloadName_from_fields:
  assumes "parseInt (widthInput st) = Num (of_int w)" and "0 \<le> w" and "w < 10 ^ 21"
    and "parseInt (heightInput st) = Num (of_int h)" and "0 \<le> h" and "h < 10 ^ 21"
    and "it \<in> set (files st)" and "resizedBlob it \<noteq> None"
    and "file_name (file_obj it) = base @ ''.'' @ ext \<and> ext \<noteq> [] \<and> CHR ''.'' \<notin> set ext
         \<or> file_name (file_obj it) = base
             \<and> (CHR ''.'' \<notin> set base \<or> base \<noteq> [] \<and> last base = CHR ''.'')"
  shows "downloadName it st
           = base @ ''_'' @ decimal w @ ''x'' @ decimal h @ ''.'' @ outputExt st
     \<and> (resizedUrl it, downloadName it st) \<in> set (downloads (downloadAll st))
     \<and> (activeIndex st < length (files st) \<and> files st ! activeIndex st = it
          \<longrightarrow> downloads (downloadCurrent st)
                = downloads st @ [(resizedUrl it, downloadName it st)])"
proof -
  have base: "replaceExt (file_name (file_obj it)) = base"
    using assms(9) replaceExt_ext replaceExt_no_dot replaceExt_trailing_dot by metis
  have name: "downloadName it st
      = base @ ''_'' @ decimal w @ ''x'' @ decimal h @ ''.'' @ outputExt st"
    using assms(1,2,4,5) by (simp add: downloadName_def Let_def base toString_nonneg)
  have all: "(resizedUrl it, downloadName it st) \<in> set (downloads (downloadAll st))"
    using assms(7,8) by (auto simp: downloadAll_downloads)
  have cur: "downloads (downloadCurrent st) = downloads st @ [(resizedUrl it, downloadName it st)]"
    if "activeIndex st < length (files st)" and "files st ! activeIndex st = it"
    using that assms(8) downloadCurrent_downloads [of st] by simp
  show ?thesis
    using name all cur by blast
qed

text \<open>
  C8 at a failing input. Three images of 800 by 600 are loaded and 100 is typed as the
  width (the lock makes the height 75). \<^verbatim>\<open>resizeAll\<close> resizes the three images to 100 by 75
  (blobs of 7500 bytes) and ends with \<^verbatim>\<open>selectFile\<close>, which writes the natural size of the
  current image back into the two fields. \<^verbatim>\<open>downloadAll\<close> and \<^verbatim>\<open>downloadCurrent\<close>, called
  next, read the fields and name the artifacts of 100 by 75 after 800 by 600. After
  \<^verbatim>\<open>resizeCurrent\<close>, which leaves the fields as they are, the name carries the target size.
\<close>

theorem downloads_after_resizeAll_misnamed:
  "parseInt (widthInput typed100) = Num 100
   \<and> parseInt (heightInput typed100) = Num 75
   \<and> map resizedBlob (files (resizeAll okBrowser typed100))
       = [Some \<lparr>blob_size = area (Num 100) (Num 75), blob_type = ''image/jpeg''\<rparr>,
          Some \<lparr>blob_size = area (Num 100) (Num 75), blob_type = ''image/jpeg''\<rparr>,
          Some \<lparr>blob_size = area (Num 100) (Num 75), blob_type = ''image/jpeg''\<rparr>]
   \<and> widthInput (resizeAll okBrowser typed100) = ''800''
   \<and> heightInput (resizeAll okBrowser typed100) = ''600''
   \<and> downloads (downloadAll (resizeAll okBrowser typed100))
       = [(Some 0, ''a_800x600.jpg''), (Some 1, ''b_800x600.jpg''),
          (Some 2, ''c.tar_800x600.jpg'')]
   \<and> downloads (downloadCurrent (resizeAll okBrowser typed100))
       = [(Some 0, ''a_800x600.jpg'')]
   \<and> downloads (downloadCurrent (resizeCurrent okBrowser typed100))
       = [(Some 0, ''a_100x75.jpg'')]
   \<and> downloads (downloadAll (resizeCurrent okBrowser typed100))
       = [(Some 0, ''a_100x75.jpg'')]"
  unfolding resizeAll_typed100_eq resizedOnce_def [symmetric] by code_simp

text \<open>
  The same happens when a field is edited after a resize: the first image is resized to
  100 by 75, then 300 is typed as the width (the lock makes the height 225) and nothing
  is resized again. The artifact is still the one of 100 by 75, and both downloads name
  it after 300 by 225.
\<close>

lemma downloads_after_edit:
  "map resizedBlob (files (onWidthInput ''300'' resizedOnce))
     = [Some \<lparr>blob_size = 7500, blob_type = ''image/jpeg''\<rparr>, None, None]"
  "downloads (downloadCurrent (onWidthInput ''300'' resizedOnce)) = [(Some 0, ''a_300x225.jpg'')]"
  "downloads (downloadAll (onWidthInput ''300'' resizedOnce)) = [(Some 0, ''a_300x225.jpg'')]"
  by code_simp+

end
